theory Spec2Isabelle
  imports Complex_Main "HOL-Library.Log_Nat" "HOL-Library.Code_Target_Numeral"
begin

section \<open>Shared JavaScript primitives\<close>

text \<open>
  Array indexing \<^verbatim>\<open>xs[i]\<close>: JavaScript yields \<^verbatim>\<open>undefined\<close> outside the array,
  which is \<open>None\<close> here.
\<close>

definition js_index :: "'a list \<Rightarrow> nat \<Rightarrow> 'a option" where
  "js_index xs i = (if i < length xs then Some (xs ! i) else None)"

text \<open>
  \<^verbatim>\<open>String.prototype.split\<close> with a one-character separator: the segments between the
  separators, in order; the empty string gives one empty segment.
\<close>

fun String_split :: "char \<Rightarrow> string \<Rightarrow> string list" where
  "String_split sep [] = [[]]"
| "String_split sep (c # cs) =
     (if c = sep then [] # String_split sep cs
      else (case String_split sep cs of
              [] \<Rightarrow> [[c]]
            | s # ss \<Rightarrow> (c # s) # ss))"

text \<open>\<^verbatim>\<open>Array.prototype.join\<close>, used to say what \<open>String_split\<close> computes.\<close>

fun String_join :: "char \<Rightarrow> string list \<Rightarrow> string" where
  "String_join sep [] = []"
| "String_join sep [s] = s"
| "String_join sep (s # t # ss) = s @ sep # String_join sep (t # ss)"

section \<open>Zeek signature renderers (zeek\_signature.tsx)\<close>

subsection \<open>moduleStringRenderer\<close>

text \<open>
  \<^verbatim>\<open>
  export const moduleStringRenderer: StringRenderer = (value: string) => {
    const split = value.split('.');
    if (split.length >= 2 && split[1] != null) {
      if (split[1] !== '') { return split[1]; } else { return split[0]; }
    } else { return value; }
  };
  \<close>
  The result is an option because \<^verbatim>\<open>split[1]\<close> and \<^verbatim>\<open>split[0]\<close> are array reads:
  \<open>None\<close> would be \<^verbatim>\<open>undefined\<close>.
\<close>

definition moduleStringRenderer :: "string \<Rightarrow> string option" where
  "moduleStringRenderer v =
     (let split = String_split (CHR ''.'') v in
      if 2 \<le> length split \<and> js_index split 1 \<noteq> None then
        (if js_index split 1 \<noteq> Some [] then js_index split 1 else js_index split 0)
      else Some v)"

subsection \<open>The connection-state dictionary\<close>

text \<open>
  A value read from a property of a plain object: a string the object holds itself, or
  a member it inherits from \<^verbatim>\<open>Object.prototype\<close> (a built-in function, or the
  prototype object itself for \<^verbatim>\<open>__proto__\<close>), named by its key.
\<close>

datatype js_value = JString string | JInherited string

text \<open>
  The property names every object literal inherits from \<^verbatim>\<open>Object.prototype\<close>
  (ECMAScript 20.1.3 and Annex B.2.2).
\<close>

definition Object_prototype_keys :: "string list" where
  "Object_prototype_keys =
     [''constructor'', ''hasOwnProperty'', ''isPrototypeOf'', ''propertyIsEnumerable'',
      ''toLocaleString'', ''toString'', ''valueOf'', ''__proto__'',
      ''__defineGetter__'', ''__defineSetter__'', ''__lookupGetter__'', ''__lookupSetter__'']"

text \<open>
  Property read \<^verbatim>\<open>obj[key]\<close> on an object literal with the given own properties:
  the own property when there is one, else the inherited member, else
  \<^verbatim>\<open>undefined\<close> (\<open>None\<close>).
\<close>

definition js_get :: "(string \<times> string) list \<Rightarrow> string \<Rightarrow> js_value option" where
  "js_get obj key =
     (case map_of obj key of
        Some s \<Rightarrow> Some (JString s)
      | None \<Rightarrow> if key \<in> set Object_prototype_keys then Some (JInherited key) else None)"

text \<open>
  String conversion inside a template literal. The text of a built-in function is
  implementation-defined; \<open>native_text\<close> gives it.
\<close>

fun ToString :: "(string \<Rightarrow> string) \<Rightarrow> js_value \<Rightarrow> string" where
  "ToString native_text (JString s) = s"
| "ToString native_text (JInherited k) = native_text k"

text \<open>
  The dictionary literal. The texts \<^verbatim>\<open>i18n.S0\<close>, ... come from the translations
  module, which is a parameter: \<open>i18n\<close> maps the name of a message to its text.
\<close>

definition zeekConnLogDictionay :: "(string \<Rightarrow> string) \<Rightarrow> (string \<times> string) list" where
  "zeekConnLogDictionay i18n =
     [(''S0'', i18n ''S0''), (''S1'', i18n ''S1''), (''S2'', i18n ''S2''),
      (''S3'', i18n ''S3''), (''SF'', i18n ''SF''), (''REJ'', i18n ''REJ''),
      (''RSTO'', i18n ''RSTO''), (''RSTR'', i18n ''RSTR''), (''RSTOS0'', i18n ''RSTOS0''),
      (''RSTRH'', i18n ''RSTRH''), (''SH'', i18n ''SH''), (''SHR'', i18n ''SHR''),
      (''OTH'', i18n ''OTH'')]"

definition zeek_codes :: "string list" where
  "zeek_codes = [''S0'', ''S1'', ''S2'', ''S3'', ''SF'', ''REJ'', ''RSTO'', ''RSTR'',
                 ''RSTOS0'', ''RSTRH'', ''SH'', ''SHR'', ''OTH'']"

text \<open>
  \<^verbatim>\<open>
  export const extractStateLink = (state: string | null | undefined) => {
    if (state != null) {
      const lookup = zeekConnLogDictionay[state];
      if (lookup != null) { return `${state} ${lookup}`; } else { return state; }
    } else { return null; }
  };
  \<close>
  \<open>None\<close> is \<^verbatim>\<open>null\<close> or \<^verbatim>\<open>undefined\<close>, on both sides.
\<close>

definition extractStateLink ::
  "(string \<Rightarrow> string) \<Rightarrow> (string \<Rightarrow> string) \<Rightarrow> string option \<Rightarrow> string option" where
  "extractStateLink i18n native_text state =
     (case state of
        Some st \<Rightarrow>
          (case js_get (zeekConnLogDictionay i18n) st of
             Some lookup \<Rightarrow> Some (st @ '' '' @ ToString native_text lookup)
           | None \<Rightarrow> Some st)
      | None \<Rightarrow> None)"

text \<open>
  \<^verbatim>\<open>
  export const extractStateValue = (state: string | null | undefined): string | null =>
    state != null && zeekConnLogDictionay[state] != null ? zeekConnLogDictionay[state] : null;
  \<close>
\<close>

definition extractStateValue :: "(string \<Rightarrow> string) \<Rightarrow> string option \<Rightarrow> js_value option" where
  "extractStateValue i18n state =
     (case state of
        Some st \<Rightarrow>
          (if js_get (zeekConnLogDictionay i18n) st \<noteq> None
           then js_get (zeekConnLogDictionay i18n) st else None)
      | None \<Rightarrow> None)"

section \<open>Filter bar service (FilterBarService)\<close>

subsection \<open>Numbers in template literals\<close>

text \<open>
  \<^verbatim>\<open>`${index}`\<close> for an array index: the decimal digits of a natural number.
\<close>

definition digit_char :: "nat \<Rightarrow> char" where
  "digit_char d = char_of (48 + d)"

function Number_toString :: "nat \<Rightarrow> string" where
  "Number_toString n =
     (if n < 10 then [digit_char n]
      else Number_toString (n div 10) @ [digit_char (n mod 10)])"
  by pat_completeness auto
termination
  by (relation "measure id") auto

declare Number_toString.simps [simp del]

text \<open>
  The operator \<^verbatim>\<open>key in obj\<close> for an object with the given own property names: own
  properties first, then the prototype chain, which for an object literal is
  \<^verbatim>\<open>Object.prototype\<close>.
\<close>

definition js_in :: "string \<Rightarrow> string list \<Rightarrow> bool" where
  "js_in key own_keys = (key \<in> set own_keys \<or> key \<in> set Object_prototype_keys)"

subsection \<open>The filter types\<close>

datatype Operation =
  IS | IS_NOT | IS_ONE_OF | IS_NOT_ONE_OF | IS_BETWEEN | IS_NOT_BETWEEN | EXISTS | DOES_NOT_EXIST

fun Operation_text :: "Operation \<Rightarrow> string" where
  "Operation_text IS = ''is''"
| "Operation_text IS_NOT = ''is not''"
| "Operation_text IS_ONE_OF = ''is one of''"
| "Operation_text IS_NOT_ONE_OF = ''is not one of''"
| "Operation_text IS_BETWEEN = ''is between''"
| "Operation_text IS_NOT_BETWEEN = ''is not between''"
| "Operation_text EXISTS = ''exists''"
| "Operation_text DOES_NOT_EXIST = ''does not exist''"

datatype BooleanRelation = AND | OR

text \<open>
  What the \<^verbatim>\<open>value\<close> property of a leaf can hold: a string, an array of strings, or
  an object with the keys \<^verbatim>\<open>from\<close> and \<^verbatim>\<open>to\<close>, each a number or
  \<^verbatim>\<open>undefined\<close>. The number type \<open>'n\<close> is a parameter.
\<close>

datatype 'n FilterValue =
  StringValue string
| ArrayValue "string list"
| RangeValue "'n option" "'n option"

text \<open>
  A leaf object: \<open>leaf_value\<close> is \<open>None\<close> when the object has no \<^verbatim>\<open>value\<close>
  property. The guards of the service look at the shape of the object, not at its
  operation, so the record keeps the two apart.
\<close>

record 'n FilterLeaf =
  field :: string
  operation :: Operation
  leaf_value :: "'n FilterValue option"

text \<open>
  \<^verbatim>\<open>type Filter = FilterLeaf | FilterNode\<close>, where a node is
  \<^verbatim>\<open>{ condition: BooleanRelation; filters: Array<FilterLeaf | FilterNode> }\<close>.
\<close>

datatype 'n Filter =
  Leaf (leaf: "'n FilterLeaf")
| FilterNode (condition: BooleanRelation) (filters: "'n Filter list")

text \<open>
  The four leaf interfaces of the source, as predicates on leaf objects:
  \<^verbatim>\<open>FilterWithoutValue\<close>, \<^verbatim>\<open>FilterWithSingleValue\<close>,
  \<^verbatim>\<open>FilterWithMultipleValues\<close>, \<^verbatim>\<open>FilterWithRange\<close>, and their union
  \<^verbatim>\<open>FilterLeaf\<close>.
\<close>

definition FilterWithoutValue :: "'n FilterLeaf \<Rightarrow> bool" where
  "FilterWithoutValue l =
     ((operation l = EXISTS \<or> operation l = DOES_NOT_EXIST) \<and> leaf_value l = None)"

definition FilterWithSingleValue :: "'n FilterLeaf \<Rightarrow> bool" where
  "FilterWithSingleValue l =
     ((operation l = IS \<or> operation l = IS_NOT) \<and>
      (case leaf_value l of Some (StringValue v) \<Rightarrow> True | _ \<Rightarrow> False))"

definition FilterWithMultipleValues :: "'n FilterLeaf \<Rightarrow> bool" where
  "FilterWithMultipleValues l =
     ((operation l = IS_ONE_OF \<or> operation l = IS_NOT_ONE_OF) \<and>
      (case leaf_value l of Some (ArrayValue vs) \<Rightarrow> True | _ \<Rightarrow> False))"

definition FilterWithRange :: "'n FilterLeaf \<Rightarrow> bool" where
  "FilterWithRange l =
     ((operation l = IS_BETWEEN \<or> operation l = IS_NOT_BETWEEN) \<and>
      (case leaf_value l of Some (RangeValue a b) \<Rightarrow> True | _ \<Rightarrow> False))"

definition FilterLeaf_typed :: "'n FilterLeaf \<Rightarrow> bool" where
  "FilterLeaf_typed l =
     (FilterWithoutValue l \<or> FilterWithSingleValue l \<or>
      FilterWithMultipleValues l \<or> FilterWithRange l)"

subsection \<open>Own property names, \<^verbatim>\<open>typeof\<close> and \<^verbatim>\<open>Array.isArray\<close>\<close>

text \<open>
  The own property names of the objects. A leaf has \<^verbatim>\<open>value\<close> among them when it
  holds a value. The guards ask \<^verbatim>\<open>in\<close> of a value only when it is an object that
  is not an array, so the names of a string (a primitive, on which \<^verbatim>\<open>in\<close> throws)
  and of an array (its length and indices) are never read.
\<close>

definition FilterLeaf_keys :: "'n FilterLeaf \<Rightarrow> string list" where
  "FilterLeaf_keys l =
     [''field'', ''operation''] @ (if leaf_value l = None then [] else [''value''])"

fun Filter_keys :: "'n Filter \<Rightarrow> string list" where
  "Filter_keys (Leaf l) = FilterLeaf_keys l"
| "Filter_keys (FilterNode c fs) = [''condition'', ''filters'']"

fun FilterValue_keys :: "'n FilterValue \<Rightarrow> string list" where
  "FilterValue_keys (StringValue v) = []"
| "FilterValue_keys (ArrayValue vs) = ''length'' # map Number_toString [0..<length vs]"
| "FilterValue_keys (RangeValue a b) = [''from'', ''to'']"

fun Array_isArray :: "'n FilterValue \<Rightarrow> bool" where
  "Array_isArray (ArrayValue vs) = True"
| "Array_isArray v = False"

fun typeof :: "'n FilterValue \<Rightarrow> string" where
  "typeof (StringValue v) = ''string''"
| "typeof (ArrayValue vs) = ''object''"
| "typeof (RangeValue a b) = ''object''"

subsection \<open>The type guards\<close>

text \<open>
  \<^verbatim>\<open>
  private isFilterLeafWithoutValue(filter: FilterLeaf): filter is FilterWithoutValue {
    return !('value' in filter);
  }
  private isFilterWithRange(filter: FilterLeaf): filter is FilterWithRange {
    return ('value' in filter && !Array.isArray(filter.value) &&
      typeof filter.value === 'object' && 'from' in filter.value && 'to' in filter.value);
  }
  private isFilterNode(filter: Filter): filter is FilterNode {
    return 'filters' in filter && 'condition' in filter;
  }
  \<close>
  The conjunction of \<open>isFilterWithRange\<close> is evaluated left to right: \<^verbatim>\<open>in\<close> is
  applied to \<^verbatim>\<open>filter.value\<close> only once it is known to be an object.
\<close>

definition isFilterLeafWithoutValue :: "'n FilterLeaf \<Rightarrow> bool" where
  "isFilterLeafWithoutValue flt = (\<not> js_in ''value'' (FilterLeaf_keys flt))"

definition isFilterWithRange :: "'n FilterLeaf \<Rightarrow> bool" where
  "isFilterWithRange flt =
     (if js_in ''value'' (FilterLeaf_keys flt) then
        (case leaf_value flt of
           None \<Rightarrow> False
         | Some v \<Rightarrow>
             if \<not> Array_isArray v then
               if typeof v = ''object'' then
                 if js_in ''from'' (FilterValue_keys v) then js_in ''to'' (FilterValue_keys v)
                 else False
               else False
             else False)
      else False)"

definition isFilterNode :: "'n Filter \<Rightarrow> bool" where
  "isFilterNode flt =
     (js_in ''filters'' (Filter_keys flt) \<and> js_in ''condition'' (Filter_keys flt))"

subsection \<open>Browser actions\<close>

text \<open>
  The service drives a browser. A run is modelled by the sequence of driver calls it
  issues, in order. An element handle is the way it was found: a test subject of the
  page, or a descendant of a handle by test subject or by tag name. No call of
  \<open>createFilter\<close> branches on what the driver returns, so the sequence is a function
  of the filter and the path; a driver call that throws cuts the run at that point.
\<close>

datatype element =
  TestSubject string
| ByTestSubject element string
| ByTagName element string

datatype browser_key = ENTER

datatype ui_action =
  Find element
| Click element
| ComboBoxSetElement element string
| TypeText element string
| TypeKey element browser_key

text \<open>
  \<^verbatim>\<open>
  private async addOrFilter(path: string) {
    const filterForm = await this.testSubjects.find(`filter-${path}`);
    const addOrBtn = await filterForm.findByTestSubject('add-or-filter');
    await addOrBtn.click();
  }
  \<close>
  and likewise \<open>addAndFilter\<close> with \<^verbatim>\<open>'add-and-filter'\<close>.
\<close>

definition addOrFilter :: "string \<Rightarrow> ui_action list" where
  "addOrFilter path =
     (let filterForm = TestSubject (''filter-'' @ path);
          addOrBtn = ByTestSubject filterForm ''add-or-filter''
      in [Find filterForm, Find addOrBtn, Click addOrBtn])"

definition addAndFilter :: "string \<Rightarrow> ui_action list" where
  "addAndFilter path =
     (let filterForm = TestSubject (''filter-'' @ path);
          addAndBtn = ByTestSubject filterForm ''add-and-filter''
      in [Find filterForm, Find addAndBtn, Click addAndBtn])"

text \<open>
  \<^verbatim>\<open>
  private async addConditionalFilter(filter: FilterNode, path: string) {
    if (filter.condition === BooleanRelation.OR) { return await this.addOrFilter(path); }
    await this.addAndFilter(path);
  }
  \<close>
  Only the node's condition is read, so the model takes the condition.
\<close>

definition addConditionalFilter :: "BooleanRelation \<Rightarrow> string \<Rightarrow> ui_action list" where
  "addConditionalFilter cond path =
     (if cond = OR then addOrFilter path else addAndFilter path)"

text \<open>
  Property reads \<^verbatim>\<open>filter.value.from\<close> and \<^verbatim>\<open>filter.value.to\<close>:
  \<^verbatim>\<open>undefined\<close> (\<open>None\<close>) when the key is absent or holds \<^verbatim>\<open>undefined\<close>.
\<close>

definition value_from :: "'n FilterLeaf \<Rightarrow> 'n option" where
  "value_from flt = (case leaf_value flt of Some (RangeValue a b) \<Rightarrow> a | _ \<Rightarrow> None)"

definition value_to :: "'n FilterLeaf \<Rightarrow> 'n option" where
  "value_to flt = (case leaf_value flt of Some (RangeValue a b) \<Rightarrow> b | _ \<Rightarrow> None)"

text \<open>\<^verbatim>\<open>`${x ?? ''}`\<close>, with \<open>num_text\<close> the text of a number.\<close>

definition text_or_empty :: "('n \<Rightarrow> string) \<Rightarrow> 'n option \<Rightarrow> string" where
  "text_or_empty num_text x = (case x of None \<Rightarrow> [] | Some n \<Rightarrow> num_text n)"

text \<open>
  \<open>pasteFilterData\<close> fills the form at \<^verbatim>\<open>filter-${path}\<close>: field, operator, then
  nothing more for a leaf without value, the two range inputs for a range, and the
  parameter input otherwise (every array element followed by ENTER, or the one string).
  The last \<open>case\<close> has a branch for a value that is neither: the guards before it
  exclude it (lemma \<open>pasteFilterData_cases\<close>).
\<close>

definition pasteFilterData :: "('n \<Rightarrow> string) \<Rightarrow> 'n FilterLeaf \<Rightarrow> string \<Rightarrow> ui_action list" where
  "pasteFilterData num_text flt path =
     (let filterForm = TestSubject (''filter-'' @ path);
          fieldInput = ByTestSubject filterForm ''filterFieldSuggestionList'';
          operatorInput = ByTestSubject filterForm ''filterOperatorList'';
          started =
            [Find filterForm,
             Find fieldInput, ComboBoxSetElement fieldInput (field flt),
             Find operatorInput,
             ComboBoxSetElement operatorInput (Operation_text (operation flt))]
      in if isFilterLeafWithoutValue flt then started
         else if isFilterWithRange flt then
           (let startInput = ByTestSubject filterForm ''range-start'';
                endInput = ByTestSubject filterForm ''range-end''
            in started @
               [Find startInput, Find endInput,
                TypeText startInput (text_or_empty num_text (value_from flt)),
                TypeText endInput (text_or_empty num_text (value_to flt))])
         else
           (let fieldParams = ByTestSubject filterForm ''filterParams'';
                filterValueInput = ByTagName fieldParams ''input''
            in started @ [Find fieldParams, Find filterValueInput] @
               (case leaf_value flt of
                  Some (ArrayValue vs) \<Rightarrow>
                    concat (map (\<lambda>v. [TypeText filterValueInput v,
                                       TypeKey filterValueInput ENTER]) vs)
                | Some (StringValue v) \<Rightarrow> [TypeText filterValueInput v]
                | _ \<Rightarrow> [])))"

subsection \<open>createFilter\<close>

text \<open>
  \<^verbatim>\<open>
  private async createFilter(filter: Filter, path: string = '0'): Promise<unknown> {
    if (this.isFilterNode(filter)) {
      let startedAdding = false;
      for (const [index, f] of filter.filters.entries()) {
        if (index < filter.filters.length - 1) {
          await this.addConditionalFilter(filter, startedAdding ? `${path}.${index}` : path);
        }
        await this.createFilter(f, `${path}.${index}`);
        startedAdding = true;
      }
      return;
    }
    return await this.pasteFilterData(filter, path);
  }
  \<close>
  \<open>createFilter_loop\<close> is the \<^verbatim>\<open>for\<close> loop: its state is the flag
  \<open>startedAdding\<close>, the index and the entries still to visit; \<open>n\<close> is
  \<^verbatim>\<open>filter.filters.length\<close>, and the comparison with \<^verbatim>\<open>length - 1\<close> is made in
  the integers, where \<open>0 - 1\<close> is \<open>-1\<close>.
\<close>

text \<open>
  The size of what a call still has to visit: the filter for \<open>createFilter\<close>, the
  remaining children for the loop. Every call made is on a smaller argument.
\<close>

definition createFilter_measure ::
  "('n \<Rightarrow> string) \<times> 'n Filter \<times> string +
   ('n \<Rightarrow> string) \<times> BooleanRelation \<times> nat \<times> string \<times> bool \<times> nat \<times> 'n Filter list
   \<Rightarrow> nat" where
  "createFilter_measure x =
     (case x of
        Inl (num_text, f, path) \<Rightarrow> size f
      | Inr (num_text, cond, n, path, started, index, fs) \<Rightarrow> size_list size fs)"

function createFilter :: "('n \<Rightarrow> string) \<Rightarrow> 'n Filter \<Rightarrow> string \<Rightarrow> ui_action list"
  and createFilter_loop ::
    "('n \<Rightarrow> string) \<Rightarrow> BooleanRelation \<Rightarrow> nat \<Rightarrow> string \<Rightarrow> bool \<Rightarrow> nat \<Rightarrow>
     'n Filter list \<Rightarrow> ui_action list"
where
  "createFilter num_text (Leaf l) path = pasteFilterData num_text l path"
| "createFilter num_text (FilterNode cond fs) path =
     createFilter_loop num_text cond (length fs) path False 0 fs"
| "createFilter_loop num_text cond n path startedAdding index [] = []"
| "createFilter_loop num_text cond n path startedAdding index (f # rest) =
     (if int index < int n - 1
      then addConditionalFilter cond
             (if startedAdding then path @ ''.'' @ Number_toString index else path)
      else [])
     @ createFilter num_text f (path @ ''.'' @ Number_toString index)
     @ createFilter_loop num_text cond n path True (index + 1) rest"
  by pat_completeness auto
termination
  by (relation "measure createFilter_measure") (auto simp: createFilter_measure_def)

text \<open>Counting the clicks on a joiner button in a run.\<close>

fun is_click_on :: "string \<Rightarrow> ui_action \<Rightarrow> bool" where
  "is_click_on subject (Click (ByTestSubject form s)) = (s = subject)"
| "is_click_on subject a = False"

definition clicks_on :: "string \<Rightarrow> ui_action list \<Rightarrow> nat" where
  "clicks_on subject run = length (filter (is_click_on subject) run)"

section \<open>Console settings (Settings)\<close>

subsection \<open>Numbers\<close>

text \<open>
  A JavaScript number is an IEEE 754 double: \<^verbatim>\<open>NaN\<close>, an infinity, a zero (both with
  their sign; the flag is true for the negative one), or a finite non-zero value
  \<^verbatim>\<open>m * 2^e\<close> with its sign. \<open>is_double\<close> is the binary64 format: a normal number
  has a 53-bit mantissa, \<^verbatim>\<open>2^52 <= m < 2^53\<close>, and \<^verbatim>\<open>-1074 <= e <= 971\<close>; a subnormal
  one has \<^verbatim>\<open>0 < m < 2^52\<close> and \<^verbatim>\<open>e = -1074\<close>. So every double has one representation,
  and 12.5 is \<open>Finite False 7036874417766400 (- 49)\<close>.
\<close>

datatype js_number = NaN | Infinity bool | Zero bool | Finite bool nat int

definition is_double :: "js_number \<Rightarrow> bool" where
  "is_double x =
     (case x of
        Finite neg m e \<Rightarrow>
          (2 ^ 52 \<le> m \<and> m < 2 ^ 53 \<and> - 1074 \<le> e \<and> e \<le> 971) \<or>
          (0 < m \<and> m < 2 ^ 52 \<and> e = - 1074)
      | _ \<Rightarrow> True)"

text \<open>
  The Number value for a non-negative mathematical value (ECMAScript 6.1.6.1): the
  double nearest to it, the one with an even mantissa when two are equally near, where
  \<^verbatim>\<open>2^1024\<close> counts as a double and stands for infinity. \<open>floor_log2 q\<close> is the \<open>l\<close>
  with \<^verbatim>\<open>2^l <= q < 2^(l+1)\<close>; the value is rounded to a multiple of \<^verbatim>\<open>2^(l-52)\<close>, or
  of \<^verbatim>\<open>2^-1074\<close> in the subnormal range.
\<close>

definition floor_log2 :: "rat \<Rightarrow> int" where
  "floor_log2 q =
     (let (a, b) = quotient_of q; d = bitlen a - bitlen b
      in if 2 powi d \<le> q then d else d - 1)"

definition round_half_even :: "rat \<Rightarrow> int" where
  "round_half_even t =
     (let f = \<lfloor>t\<rfloor>; r = t - of_int f
      in if r < 1 / 2 then f
         else if 1 / 2 < r then f + 1
         else if even f then f else f + 1)"

definition Number_value :: "rat \<Rightarrow> js_number" where
  "Number_value q =
     (if q \<le> 0 then Zero False
      else
        let e = max (- 1074) (floor_log2 q - 52);
            m = round_half_even (q / 2 powi e)
        in if m = 0 then Zero False
           else if m = 2 ^ 53
             then (if 971 < e + 1 then Infinity False else Finite False (2 ^ 52) (e + 1))
           else if 971 < e then Infinity False
           else Finite False (nat m) e)"

fun negate :: "js_number \<Rightarrow> js_number" where
  "negate NaN = NaN"
| "negate (Infinity neg) = Infinity (\<not> neg)"
| "negate (Zero neg) = Zero (\<not> neg)"
| "negate (Finite neg m e) = Finite (\<not> neg) m e"

text \<open>A numeric literal of the source, such as \<^verbatim>\<open>14\<close> or \<^verbatim>\<open>60000\<close>.\<close>

definition Number_literal :: "rat \<Rightarrow> js_number" where
  "Number_literal q = (if q < 0 then negate (Number_value (- q)) else Number_value q)"

subsection \<open>\<^verbatim>\<open>Number::toString\<close>\<close>

text \<open>
  ECMAScript 6.1.6.1.20, radix 10. For a finite positive \<open>x\<close> it takes integers \<open>n\<close>,
  \<open>k\<close>, \<open>s\<close> with \<^verbatim>\<open>k >= 1\<close>, \<^verbatim>\<open>10^(k-1) <= s < 10^k\<close>, the Number value of
  \<^verbatim>\<open>s * 10^(n-k)\<close> equal to \<open>x\<close> and \<open>k\<close> as small as possible, and among several such
  \<open>s\<close> the one whose decimal is closest to \<open>x\<close> (the even one of two).

  \<open>decimal_exponent q\<close> is the \<open>n\<close> with \<^verbatim>\<open>10^(n-1) <= q < 10^n\<close>. For a given \<open>k\<close>
  the candidates are the two decimals around the value, at this exponent and at the
  next one (a value just below a power of ten may round up to it), kept when they have
  \<open>k\<close> digits and their Number value is \<open>x\<close>. The search goes through \<open>k = 1, 2, ...\<close>
  and ends at the latest with the exact decimal expansion of \<^verbatim>\<open>m * 2^e\<close>, whose Number
  value is \<open>x\<close>.
\<close>

definition decimal_exponent :: "rat \<Rightarrow> int" where
  "decimal_exponent q =
     (let (a, b) = quotient_of q;
          d = int (floorlog 10 (nat a)) - int (floorlog 10 (nat b))
      in if 10 powi d \<le> q then d + 1 else d)"

text \<open>
  A candidate \<open>(s, n)\<close> for \<open>k\<close> digits qualifies when \<open>s\<close> is positive, has \<open>k\<close>
  decimal digits and \<^verbatim>\<open>s * 10^(n-k)\<close> has the Number value \<open>m * 2^e\<close>.
\<close>

definition decimal_rounds_to :: "nat \<Rightarrow> int \<Rightarrow> nat \<Rightarrow> nat \<times> int \<Rightarrow> bool" where
  "decimal_rounds_to m e k c =
     (case c of (s, n) \<Rightarrow>
        0 < s \<and> length (Number_toString s) = k \<and>
        Number_value (of_nat s * 10 powi (n - int k)) = Finite False m e)"

definition digit_candidates :: "nat \<Rightarrow> int \<Rightarrow> nat \<Rightarrow> (nat \<times> int) list" where
  "digit_candidates m e k =
     (let q = of_nat m * 2 powi e :: rat;
          n0 = decimal_exponent q
      in filter (decimal_rounds_to m e k)
           (concat (map (\<lambda>n. let f = nat \<lfloor>q / 10 powi (n - int k)\<rfloor>
                             in [(f, n), (f + 1, n)]) [n0, n0 + 1])))"

text \<open>Among the candidates, the one closest to the value; of two equally close, the even one.\<close>

definition decimal_distance :: "rat \<Rightarrow> nat \<times> int \<Rightarrow> rat" where
  "decimal_distance q c =
     (case c of (s, n) \<Rightarrow> \<bar>of_nat s * 10 powi (n - int (length (Number_toString s))) - q\<bar>)"

fun closest_decimal :: "rat \<Rightarrow> (nat \<times> int) list \<Rightarrow> (nat \<times> int) option" where
  "closest_decimal q [] = None"
| "closest_decimal q (c # cs) =
     (case closest_decimal q cs of
        None \<Rightarrow> Some c
      | Some b \<Rightarrow>
          if decimal_distance q c < decimal_distance q b then Some c
          else if decimal_distance q b < decimal_distance q c then Some b
          else if even (fst c) then Some c else Some b)"

text \<open>
  The exact decimal expansion of \<^verbatim>\<open>m * 2^e\<close>: the integer itself when \<open>e\<close> is not
  negative, and \<^verbatim>\<open>m * 5^-e * 10^e\<close> otherwise, without its trailing zeros.
\<close>

function strip_zeros :: "nat \<Rightarrow> int \<Rightarrow> nat \<times> int" where
  "strip_zeros s p = (if 0 < s \<and> s mod 10 = 0 then strip_zeros (s div 10) (p + 1) else (s, p))"
  by pat_completeness auto
termination
  by (relation "measure fst") auto

declare strip_zeros.simps [simp del]

definition exact_decimal :: "nat \<Rightarrow> int \<Rightarrow> nat \<times> int" where
  "exact_decimal m e =
     (case (if 0 \<le> e then strip_zeros (m * 2 ^ nat e) 0 else strip_zeros (m * 5 ^ nat (- e)) e) of
        (s, p) \<Rightarrow> (s, int (length (Number_toString s)) + p))"

text \<open>
  The search: the closest candidate with \<open>k\<close> digits, or else the search from \<open>k + 1\<close>;
  \<open>K\<close> is the number of digits of the exact expansion, where the search ends.
\<close>

function shortest_decimal_from :: "nat \<Rightarrow> int \<Rightarrow> nat \<Rightarrow> nat \<Rightarrow> nat \<times> int" where
  "shortest_decimal_from m e k K =
     (if K \<le> k then exact_decimal m e
      else (case closest_decimal (of_nat m * 2 powi e) (digit_candidates m e k) of
              Some c \<Rightarrow> c
            | None \<Rightarrow> shortest_decimal_from m e (Suc k) K))"
  by pat_completeness auto
termination
  by (relation "measure (\<lambda>(m, e, k, K). K - k)") auto

declare shortest_decimal_from.simps [simp del]

definition shortest_decimal :: "nat \<Rightarrow> int \<Rightarrow> nat \<times> int" where
  "shortest_decimal m e =
     shortest_decimal_from m e 1 (length (Number_toString (fst (exact_decimal m e))))"

text \<open>
  The text for the digits \<open>s\<close> (there are \<open>k\<close> of them) and the exponent \<open>n\<close>: the digits
  with zeros appended when \<^verbatim>\<open>k <= n <= 21\<close>, a decimal point inside the digits when
  \<^verbatim>\<open>0 < n < k\<close>, a leading \<^verbatim>\<open>0.\<close> and zeros when \<^verbatim>\<open>-6 < n <= 0\<close>, and the exponent
  form otherwise, with the exponent \<^verbatim>\<open>n - 1\<close> and its sign always written.
\<close>

definition format_decimal :: "nat \<Rightarrow> int \<Rightarrow> string" where
  "format_decimal s n =
     (let ds = Number_toString s; k = int (length ds)
      in if - 5 \<le> n \<and> n \<le> 21 then
           (if k \<le> n then ds @ replicate (nat (n - k)) (CHR ''0'')
            else if 0 < n then take (nat n) ds @ ''.'' @ drop (nat n) ds
            else ''0.'' @ replicate (nat (- n)) (CHR ''0'') @ ds)
         else
           (let c = n - 1;
                exponentSign = (if c < 0 then ''-'' else ''+'');
                d = Number_toString (nat \<bar>c\<bar>)
            in if k = 1 then ds @ ''e'' @ exponentSign @ d
               else take 1 ds @ ''.'' @ drop 1 ds @ ''e'' @ exponentSign @ d))"

text \<open>
  \<^verbatim>\<open>NaN\<close> and the infinities print their names, both zeros print \<^verbatim>\<open>0\<close>, and a negative
  number prints \<^verbatim>\<open>-\<close> before the text of its absolute value.
\<close>

fun js_number_ToString :: "js_number \<Rightarrow> string" where
  "js_number_ToString NaN = ''NaN''"
| "js_number_ToString (Zero neg) = ''0''"
| "js_number_ToString (Infinity neg) = (if neg then ''-Infinity'' else ''Infinity'')"
| "js_number_ToString (Finite neg m e) =
     (if neg then ''-'' else '''') @
     (case shortest_decimal m e of (s, n) \<Rightarrow> format_decimal s n)"

subsection \<open>\<^verbatim>\<open>parseFloat\<close>\<close>

text \<open>
  ECMAScript 19.2.4: leading white space is trimmed, the longest prefix that is a
  \<^verbatim>\<open>StrDecimalLiteral\<close> is read (a sign, then \<^verbatim>\<open>Infinity\<close> or digits with an optional
  fraction and an optional exponent), and its mathematical value is rounded to a
  Number; there is no such prefix when the result is \<^verbatim>\<open>NaN\<close>. Strings are sequences of
  8-bit characters, so the white space is the seven white-space and line-terminator
  characters below 256. The value is rounded from all its digits, as the engines do
  (for more than 20 significant digits the standard also allows rounding from the first
  20).
\<close>

definition is_digit :: "char \<Rightarrow> bool" where
  "is_digit c = (48 \<le> (of_char c :: nat) \<and> (of_char c :: nat) \<le> 57)"

definition digit_value :: "char \<Rightarrow> nat" where
  "digit_value c = of_char c - 48"

fun parse_digits :: "nat \<Rightarrow> string \<Rightarrow> nat" where
  "parse_digits acc [] = acc"
| "parse_digits acc (c # cs) =
     (if is_digit c then parse_digits (10 * acc + digit_value c) cs else acc)"

definition is_StrWhiteSpaceChar :: "char \<Rightarrow> bool" where
  "is_StrWhiteSpaceChar c = ((of_char c :: nat) \<in> {9, 10, 11, 12, 13, 32, 160})"

definition SignedInteger_value :: "string \<Rightarrow> int option" where
  "SignedInteger_value s =
     (case s of
        [] \<Rightarrow> None
      | c # cs \<Rightarrow>
          if c = CHR ''+'' \<or> c = CHR ''-'' then
            (case cs of
               [] \<Rightarrow> None
             | d # ds \<Rightarrow>
                 if is_digit d
                 then Some (if c = CHR ''-'' then - int (parse_digits 0 cs) else int (parse_digits 0 cs))
                 else None)
          else if is_digit c then Some (int (parse_digits 0 s))
          else None)"

definition ExponentPart_value :: "string \<Rightarrow> int" where
  "ExponentPart_value s =
     (case s of
        [] \<Rightarrow> 0
      | c # cs \<Rightarrow>
          if c = CHR ''e'' \<or> c = CHR ''E'' then
            (case SignedInteger_value cs of Some v \<Rightarrow> v | None \<Rightarrow> 0)
          else 0)"

text \<open>
  The mathematical value of the longest \<^verbatim>\<open>StrUnsignedDecimalLiteral\<close> prefix, \<open>None\<close>
  when there is none. An exponent part counts only with at least one digit.
\<close>

datatype literal_value = LInfinity | LDecimal rat

definition StrUnsignedDecimalLiteral_MV :: "string \<Rightarrow> literal_value option" where
  "StrUnsignedDecimalLiteral_MV s =
     (if take 8 s = ''Infinity'' then Some LInfinity
      else
        let ip = takeWhile is_digit s; r1 = dropWhile is_digit s
        in case r1 of
             [] \<Rightarrow> if ip = [] then None
                   else Some (LDecimal (of_nat (parse_digits 0 ip)))
           | c # r2 \<Rightarrow>
               if c = CHR ''.'' then
                 (let fp = takeWhile is_digit r2; r3 = dropWhile is_digit r2
                  in if ip = [] \<and> fp = [] then None
                     else Some (LDecimal
                       ((of_nat (parse_digits 0 ip) +
                         of_nat (parse_digits 0 fp) / 10 ^ length fp) *
                        10 powi ExponentPart_value r3)))
               else if ip = [] then None
               else Some (LDecimal (of_nat (parse_digits 0 ip) * 10 powi ExponentPart_value r1)))"

definition StringNumericValue :: "literal_value option \<Rightarrow> js_number" where
  "StringNumericValue l =
     (case l of None \<Rightarrow> NaN | Some LInfinity \<Rightarrow> Infinity False
      | Some (LDecimal mv) \<Rightarrow> Number_value mv)"

definition parseFloat_string :: "string \<Rightarrow> js_number" where
  "parseFloat_string inputString =
     (let trimmed = dropWhile is_StrWhiteSpaceChar inputString
      in case trimmed of
           [] \<Rightarrow> NaN
         | c # cs \<Rightarrow>
             if c = CHR ''-'' then negate (StringNumericValue (StrUnsignedDecimalLiteral_MV cs))
             else if c = CHR ''+'' then StringNumericValue (StrUnsignedDecimalLiteral_MV cs)
             else StringNumericValue (StrUnsignedDecimalLiteral_MV trimmed))"

subsection \<open>Stored values and coercions\<close>

text \<open>The autocomplete settings object, with its properties
  \<^verbatim>\<open>fields\<close>, \<^verbatim>\<open>indices\<close> and \<^verbatim>\<open>templates\<close>.\<close>

record Autocomplete =
  ac_fields :: bool
  ac_indices :: bool
  ac_templates :: bool

text \<open>What the storage holds under a key: a number, a boolean or the autocomplete object.\<close>

datatype stored_value = SNumber js_number | SBoolean bool | SObject Autocomplete

text \<open>\<^verbatim>\<open>ToString\<close> of a stored value, the first step of \<^verbatim>\<open>parseFloat(x)\<close>.\<close>

fun ToString_stored :: "stored_value \<Rightarrow> string" where
  "ToString_stored (SNumber x) = js_number_ToString x"
| "ToString_stored (SBoolean b) = (if b then ''true'' else ''false'')"
| "ToString_stored (SObject obj) = ''[object Object]''"

definition parseFloat :: "stored_value \<Rightarrow> js_number" where
  "parseFloat x = parseFloat_string (ToString_stored x)"

text \<open>\<^verbatim>\<open>Boolean(x)\<close>: a number is falsy when it is a zero or \<^verbatim>\<open>NaN\<close>; an object is truthy.\<close>

fun Boolean :: "stored_value \<Rightarrow> bool" where
  "Boolean (SBoolean b) = b"
| "Boolean (SNumber NaN) = False"
| "Boolean (SNumber (Zero neg)) = False"
| "Boolean (SNumber (Infinity neg)) = True"
| "Boolean (SNumber (Finite neg m e)) = True"
| "Boolean (SObject obj) = True"

subsection \<open>The settings object\<close>

record DevToolsSettings =
  fontSize :: js_number
  wrapMode :: bool
  autocomplete :: Autocomplete
  polling :: bool
  pollInterval :: js_number
  tripleQuotes :: bool
  historyDisabled :: bool

text \<open>A well-typed settings object: its two numbers are doubles.\<close>

definition DevToolsSettings_typed :: "DevToolsSettings \<Rightarrow> bool" where
  "DevToolsSettings_typed settings =
     (is_double (fontSize settings) \<and> is_double (pollInterval settings))"

definition DEFAULT_SETTINGS :: DevToolsSettings where
  "DEFAULT_SETTINGS =
     \<lparr>fontSize = Number_literal 14, wrapMode = True,
      autocomplete = \<lparr>ac_fields = True, ac_indices = True, ac_templates = True\<rparr>,
      polling = False, pollInterval = Number_literal 60000, tripleQuotes = True,
      historyDisabled = False\<rparr>"

text \<open>
  The \<^verbatim>\<open>Storage\<close> class is imported, not defined here: it is a parameter, a state \<open>'s\<close>
  with the two methods the settings use. \<open>storage_get s key default\<close> is
  \<^verbatim>\<open>storage.get(key, default)\<close>; \<open>storage_set s key v\<close> is the state after
  \<^verbatim>\<open>storage.set(key, v)\<close>.
\<close>

record 's Storage =
  storage_get :: "'s \<Rightarrow> string \<Rightarrow> stored_value \<Rightarrow> stored_value"
  storage_set :: "'s \<Rightarrow> string \<Rightarrow> stored_value \<Rightarrow> 's"

text \<open>A storage that behaves as a key-value map: a read returns the last value written
  under the key, and a write leaves the other keys alone.\<close>

definition key_value_storage :: "'s Storage \<Rightarrow> bool" where
  "key_value_storage S =
     ((\<forall>s k v d. storage_get S (storage_set S s k v) k d = v) \<and>
      (\<forall>s k k' v d. k \<noteq> k' \<longrightarrow>
          storage_get S (storage_set S s k v) k' d = storage_get S s k' d))"

text \<open>The storage that is a map from keys to values.\<close>

definition map_storage :: "(string \<Rightarrow> stored_value option) Storage" where
  "map_storage =
     \<lparr>storage_get = (\<lambda>m k d. case m k of Some v \<Rightarrow> v | None \<Rightarrow> d),
      storage_set = (\<lambda>m k v. m(k \<mapsto> v))\<rparr>"

text \<open>
  The getters and setters, one storage key each. A setter returns the storage after the
  write (its JavaScript result, \<^verbatim>\<open>true\<close> or nothing, is never read).
\<close>

definition getFontSize :: "'s Storage \<Rightarrow> 's \<Rightarrow> stored_value" where
  "getFontSize S s = storage_get S s ''font_size'' (SNumber (fontSize DEFAULT_SETTINGS))"

definition setFontSize :: "'s Storage \<Rightarrow> 's \<Rightarrow> js_number \<Rightarrow> 's" where
  "setFontSize S s sz = storage_set S s ''font_size'' (SNumber sz)"

definition getWrapMode :: "'s Storage \<Rightarrow> 's \<Rightarrow> stored_value" where
  "getWrapMode S s = storage_get S s ''wrap_mode'' (SBoolean (wrapMode DEFAULT_SETTINGS))"

definition setWrapMode :: "'s Storage \<Rightarrow> 's \<Rightarrow> bool \<Rightarrow> 's" where
  "setWrapMode S s mode = storage_set S s ''wrap_mode'' (SBoolean mode)"

definition setTripleQuotes :: "'s Storage \<Rightarrow> 's \<Rightarrow> bool \<Rightarrow> 's" where
  "setTripleQuotes S s tq = storage_set S s ''triple_quotes'' (SBoolean tq)"

definition getTripleQuotes :: "'s Storage \<Rightarrow> 's \<Rightarrow> stored_value" where
  "getTripleQuotes S s =
     storage_get S s ''triple_quotes'' (SBoolean (tripleQuotes DEFAULT_SETTINGS))"

definition getAutocomplete :: "'s Storage \<Rightarrow> 's \<Rightarrow> stored_value" where
  "getAutocomplete S s =
     storage_get S s ''autocomplete_settings'' (SObject (autocomplete DEFAULT_SETTINGS))"

definition setAutocomplete :: "'s Storage \<Rightarrow> 's \<Rightarrow> Autocomplete \<Rightarrow> 's" where
  "setAutocomplete S s settings = storage_set S s ''autocomplete_settings'' (SObject settings)"

definition getPolling :: "'s Storage \<Rightarrow> 's \<Rightarrow> stored_value" where
  "getPolling S s = storage_get S s ''console_polling'' (SBoolean (polling DEFAULT_SETTINGS))"

definition setPolling :: "'s Storage \<Rightarrow> 's \<Rightarrow> bool \<Rightarrow> 's" where
  "setPolling S s p = storage_set S s ''console_polling'' (SBoolean p)"

definition setHistoryDisabled :: "'s Storage \<Rightarrow> 's \<Rightarrow> bool \<Rightarrow> 's" where
  "setHistoryDisabled S s disable = storage_set S s ''disable_history'' (SBoolean disable)"

definition getHistoryDisabled :: "'s Storage \<Rightarrow> 's \<Rightarrow> stored_value" where
  "getHistoryDisabled S s =
     storage_get S s ''disable_history'' (SBoolean (historyDisabled DEFAULT_SETTINGS))"

definition setPollInterval :: "'s Storage \<Rightarrow> 's \<Rightarrow> js_number \<Rightarrow> 's" where
  "setPollInterval S s interval = storage_set S s ''poll_interval'' (SNumber interval)"

definition getPollInterval :: "'s Storage \<Rightarrow> 's \<Rightarrow> stored_value" where
  "getPollInterval S s =
     storage_get S s ''poll_interval'' (SNumber (pollInterval DEFAULT_SETTINGS))"

text \<open>
  \<^verbatim>\<open>
  toJSON(): DevToolsSettings {
    return {
      autocomplete: this.getAutocomplete(),
      wrapMode: this.getWrapMode(),
      tripleQuotes: this.getTripleQuotes(),
      fontSize: parseFloat(this.getFontSize()),
      polling: Boolean(this.getPolling()),
      historyDisabled: Boolean(this.getHistoryDisabled()),
      pollInterval: this.getPollInterval(),
    };
  }
  \<close>
  Four fields are returned as the storage gives them, whatever their type; three are
  coerced.
\<close>

record settings_json =
  json_autocomplete :: stored_value
  json_wrapMode :: stored_value
  json_tripleQuotes :: stored_value
  json_fontSize :: js_number
  json_polling :: bool
  json_historyDisabled :: bool
  json_pollInterval :: stored_value

definition toJSON :: "'s Storage \<Rightarrow> 's \<Rightarrow> settings_json" where
  "toJSON S s =
     \<lparr>json_autocomplete = getAutocomplete S s,
      json_wrapMode = getWrapMode S s,
      json_tripleQuotes = getTripleQuotes S s,
      json_fontSize = parseFloat (getFontSize S s),
      json_polling = Boolean (getPolling S s),
      json_historyDisabled = Boolean (getHistoryDisabled S s),
      json_pollInterval = getPollInterval S s\<rparr>"

text \<open>
  \<^verbatim>\<open>
  updateSettings({ fontSize, wrapMode, tripleQuotes, autocomplete, polling,
                   historyDisabled, pollInterval }: DevToolsSettings) {
    this.setFontSize(fontSize);
    this.setWrapMode(wrapMode);
    this.setTripleQuotes(tripleQuotes);
    this.setAutocomplete(autocomplete);
    this.setPolling(polling);
    this.setHistoryDisabled(historyDisabled);
    this.setPollInterval(pollInterval);
  }
  \<close>
\<close>

definition updateSettings :: "'s Storage \<Rightarrow> 's \<Rightarrow> DevToolsSettings \<Rightarrow> 's" where
  "updateSettings S s0 settings =
     (let s1 = setFontSize S s0 (fontSize settings);
          s2 = setWrapMode S s1 (wrapMode settings);
          s3 = setTripleQuotes S s2 (tripleQuotes settings);
          s4 = setAutocomplete S s3 (autocomplete settings);
          s5 = setPolling S s4 (polling settings);
          s6 = setHistoryDisabled S s5 (historyDisabled settings)
      in setPollInterval S s6 (pollInterval settings))"

text \<open>A settings object as the JSON object with the same fields.\<close>

definition DevToolsSettings_json :: "DevToolsSettings \<Rightarrow> settings_json" where
  "DevToolsSettings_json settings =
     \<lparr>json_autocomplete = SObject (autocomplete settings),
      json_wrapMode = SBoolean (wrapMode settings),
      json_tripleQuotes = SBoolean (tripleQuotes settings),
      json_fontSize = fontSize settings,
      json_polling = polling settings,
      json_historyDisabled = historyDisabled settings,
      json_pollInterval = SNumber (pollInterval settings)\<rparr>"

section \<open>Hosts memory chart (Memory)\<close>

text \<open>
  A Lens layer: the order of its columns and the columns by name. The column type
  \<open>'col\<close> belongs to the Lens plugin and is a parameter.
\<close>

record 'col PersistedIndexPatternLayer =
  columnOrder :: "string list"
  columns :: "string \<Rightarrow> 'col option"

record FormulaFormat =
  format_id :: string
  decimals :: nat

record FormulaSpec =
  formula :: string
  format :: FormulaFormat

record DataView =
  timeFieldName :: "string option"
  dataView_id :: "string option"

record LensOptions =
  breakdownSize :: nat

text \<open>
  What the class imports from \<^verbatim>\<open>../utils\<close>: the layer id and the two column builders,
  each returning an object with the columns it adds.
\<close>

record 'col lens_utils =
  DEFAULT_LAYER_ID :: string
  getBreakdownColumn :: "string \<Rightarrow> string \<Rightarrow> nat \<Rightarrow> (string \<Rightarrow> 'col option)"
  getHistogramColumn :: "string \<Rightarrow> string \<Rightarrow> (string \<Rightarrow> 'col option)"

text \<open>
  The constructor's arguments. \<open>insertOrReplaceFormulaColumn\<close> is the method of the
  Lens formula API; \<open>None\<close> is its \<^verbatim>\<open>undefined\<close> result, the one falsy value its type
  allows.
\<close>

record 'col Memory =
  dataView :: DataView
  options :: LensOptions
  insertOrReplaceFormulaColumn ::
    "string \<Rightarrow> FormulaSpec \<Rightarrow> 'col PersistedIndexPatternLayer \<Rightarrow> DataView \<Rightarrow>
     'col PersistedIndexPatternLayer option"

datatype js_error = Error string

definition BREAKDOWN_COLUMN_NAME :: string where
  "BREAKDOWN_COLUMN_NAME = ''hosts_aggs_breakdown''"

definition HISTOGRAM_COLUMN_NAME :: string where
  "HISTOGRAM_COLUMN_NAME = ''x_date_histogram''"

text \<open>
  \<^verbatim>\<open>
  const baseLayer: PersistedIndexPatternLayer = {
    columnOrder: [BREAKDOWN_COLUMN_NAME, HISTOGRAM_COLUMN_NAME],
    columns: {
      ...getBreakdownColumn(BREAKDOWN_COLUMN_NAME, 'host.name', this.options.breakdownSize),
      ...getHistogramColumn(HISTOGRAM_COLUMN_NAME, this.dataView.timeFieldName ?? '@timestamp'),
    },
  };
  \<close>
  The spread of two objects is the map of the first overridden by the second.
\<close>

definition baseLayer :: "'col lens_utils \<Rightarrow> 'col Memory \<Rightarrow> 'col PersistedIndexPatternLayer" where
  "baseLayer U M =
     \<lparr>columnOrder = [BREAKDOWN_COLUMN_NAME, HISTOGRAM_COLUMN_NAME],
      columns =
        getBreakdownColumn U BREAKDOWN_COLUMN_NAME ''host.name'' (breakdownSize (options M))
        ++ getHistogramColumn U HISTOGRAM_COLUMN_NAME
             (case timeFieldName (dataView M) of Some t \<Rightarrow> t | None \<Rightarrow> ''@timestamp'')\<rparr>"

definition memory_usage_formula :: FormulaSpec where
  "memory_usage_formula =
     \<lparr>formula = ''average(system.memory.actual.used.bytes) / max(system.memory.total)'',
      format = \<lparr>format_id = ''percent'', decimals = 0\<rparr>\<rparr>"

text \<open>
  \<^verbatim>\<open>
  const dataLayer = this.formula.insertOrReplaceFormulaColumn('y_memory_usage',
    { formula: ..., format: ... }, baseLayer, this.dataView);
  if (!dataLayer) { throw new Error('Error generating the data layer for the chart'); }
  return { [DEFAULT_LAYER_ID]: dataLayer };
  \<close>
  The result is the thrown error (\<open>Inl\<close>) or the returned record of layers (\<open>Inr\<close>).
\<close>

definition getLayers ::
  "'col lens_utils \<Rightarrow> 'col Memory \<Rightarrow>
   js_error + (string \<Rightarrow> 'col PersistedIndexPatternLayer option)" where
  "getLayers U M =
     (let dataLayer =
            insertOrReplaceFormulaColumn M ''y_memory_usage'' memory_usage_formula
              (baseLayer U M) (dataView M)
      in case dataLayer of
           None \<Rightarrow> Inl (Error ''Error generating the data layer for the chart'')
         | Some layer \<Rightarrow> Inr [DEFAULT_LAYER_ID U \<mapsto> layer])"

section \<open>Guided onboarding state endpoint\<close>

text \<open>
  A guide's state. The type \<^verbatim>\<open>GuideState\<close> is declared in another package; the test
  reads its \<^verbatim>\<open>guideId\<close> and \<^verbatim>\<open>isActive\<close>, and the remaining fields are kept as the
  status text and the steps with their statuses.
\<close>

record GuideState =
  guideId :: string
  isActive :: bool
  status :: string
  steps :: "(string \<times> string) list"

text \<open>
  The saved objects of type \<^verbatim>\<open>guidedSetupSavedObjectsType\<close>: the attributes by object
  id, in the order the objects were first created.
\<close>

type_synonym saved_objects = "(string \<times> GuideState) list"

text \<open>
  \<^verbatim>\<open>kibanaServer.savedObjects.create({ type, id, overwrite: true, attributes })\<close>:
  the object with this id is replaced, or added when there is none.
\<close>

fun savedObjects_create :: "saved_objects \<Rightarrow> string \<Rightarrow> GuideState \<Rightarrow> saved_objects" where
  "savedObjects_create [] oid attributes = [(oid, attributes)]"
| "savedObjects_create ((k, v) # rest) oid attributes =
     (if k = oid then (oid, attributes) # rest
      else (k, v) # savedObjects_create rest oid attributes)"

text \<open>\<^verbatim>\<open>kibanaServer.savedObjects.clean({ types: [guidedSetupSavedObjectsType] })\<close>.\<close>

definition savedObjects_clean :: "saved_objects \<Rightarrow> saved_objects" where
  "savedObjects_clean so = []"

text \<open>
  \<^verbatim>\<open>
  const createGuides = async (guides: GuideState[]) => {
    for (const guide of guides) {
      await kibanaServer.savedObjects.create({ type: guidedSetupSavedObjectsType,
        id: guide.guideId, overwrite: true, attributes: guide });
    }
  };
  \<close>
\<close>

fun createGuides :: "saved_objects \<Rightarrow> GuideState list \<Rightarrow> saved_objects" where
  "createGuides so [] = so"
| "createGuides so (guide # guides) =
     createGuides (savedObjects_create so (guideId guide) guide) guides"

record state_response =
  status_code :: nat
  state :: "GuideState list"

text \<open>
  Modelled from the spec: the handler of \<^verbatim>\<open>GET /api/guided_onboarding/state\<close> is not
  among the sources (only its integration test is). The spec gives the endpoint an
  optional query parameter \<^verbatim>\<open>active=true|false\<close> and the response
  \<^verbatim>\<open>{ state: GuideState[] }\<close> with status 200: an empty store yields
  \<^verbatim>\<open>{ state: [] }\<close>, and filtering by \<^verbatim>\<open>active=true\<close> yields only the guides with
  \<^verbatim>\<open>isActive: true\<close>. The spec says nothing of \<^verbatim>\<open>active=false\<close>; the model
  filters only on \<^verbatim>\<open>active=true\<close>. \<open>None\<close> is a request without the parameter.
\<close>

definition get_state :: "saved_objects \<Rightarrow> bool option \<Rightarrow> state_response" where
  "get_state so active =
     \<lparr>status_code = 200,
      state = (if active = Some True then filter isActive (map snd so) else map snd so)\<rparr>"

section \<open>Sample inputs\<close>

definition sample_leaf :: "nat FilterLeaf" where
  "sample_leaf = \<lparr>field = ''bytes'', operation = IS_BETWEEN,
                  leaf_value = Some (RangeValue (Some 500) (Some 1000))\<rparr>"

text \<open>Settings with font size 12.5 and poll interval 30000.\<close>

definition sample_settings :: DevToolsSettings where
  "sample_settings =
     \<lparr>fontSize = Finite False 7036874417766400 (- 49), wrapMode = False,
      autocomplete = \<lparr>ac_fields = True, ac_indices = False, ac_templates = True\<rparr>,
      polling = True, pollInterval = Finite False 8246337208320000 (- 38), tripleQuotes = False,
      historyDisabled = True\<rparr>"

definition sample_utils :: "string lens_utils" where
  "sample_utils =
     \<lparr>DEFAULT_LAYER_ID = ''layer1'',
      getBreakdownColumn = (\<lambda>name fld size. [name \<mapsto> fld]),
      getHistogramColumn = (\<lambda>name fld. [name \<mapsto> fld])\<rparr>"

definition sample_memory :: "string Memory" where
  "sample_memory =
     \<lparr>dataView = \<lparr>timeFieldName = None, dataView_id = Some ''metrics''\<rparr>,
      options = \<lparr>breakdownSize = 10\<rparr>,
      insertOrReplaceFormulaColumn =
        (\<lambda>cid spec layer dv. Some (layer\<lparr>columnOrder := columnOrder layer @ [cid]\<rparr>))\<rparr>"

definition sample_memory_failing :: "string Memory" where
  "sample_memory_failing =
     sample_memory\<lparr>insertOrReplaceFormulaColumn := (\<lambda>cid spec layer dv. None)\<rparr>"

definition sample_search_guide :: GuideState where
  "sample_search_guide =
     \<lparr>guideId = ''search'', isActive = True, status = ''in_progress'',
      steps = [(''add_data'', ''active''), (''browse_docs'', ''inactive'')]\<rparr>"

definition sample_security_guide :: GuideState where
  "sample_security_guide =
     \<lparr>guideId = ''security'', isActive = True, status = ''in_progress'',
      steps = [(''add_data'', ''in_progress''), (''rules'', ''inactive'')]\<rparr>"

section \<open>Properties of the string primitives\<close>

lemma String_split_not_Nil: "String_split sep s \<noteq> []"
  by (induction s) (auto split: list.splits)

lemma String_split_no_sep: "sep \<notin> set s \<Longrightarrow> String_split sep s = [s]"
  by (induction s) auto

lemma String_split_first_sep:
  "sep \<notin> set a \<Longrightarrow> String_split sep (a @ sep # rest) = a # String_split sep rest"
  by (induction a) auto

lemma String_split_hd: "hd (String_split sep s) = takeWhile (\<lambda>c. c \<noteq> sep) s"
  by (induction s) (auto split: list.splits simp: String_split_not_Nil)

lemma String_split_segments: "seg \<in> set (String_split sep s) \<Longrightarrow> sep \<notin> set seg"
  by (induction s arbitrary: seg) (auto split: list.splits if_splits)

lemma String_split_length: "length (String_split sep s) = Suc (count_list s sep)"
  by (induction s) (auto split: list.splits)

lemma String_join_split: "String_join sep (String_split sep s) = s"
proof (induction s)
  case Nil
  show ?case by simp
next
  case (Cons c cs)
  obtain x xs where sp: "String_split sep cs = x # xs"
    using String_split_not_Nil [of sep cs] by (cases "String_split sep cs") auto
  show ?case
  proof (cases "c = sep")
    case True
    with Cons sp show ?thesis by simp
  next
    case False
    with Cons sp show ?thesis by (cases xs) auto
  qed
qed

section \<open>moduleStringRenderer\<close>

lemma moduleStringRenderer_no_dot:
  "CHR ''.'' \<notin> set v \<Longrightarrow> moduleStringRenderer v = Some v"
  by (simp add: moduleStringRenderer_def String_split_no_sep)

lemma moduleStringRenderer_dot:
  assumes "CHR ''.'' \<notin> set a"
  shows "moduleStringRenderer (a @ CHR ''.'' # rest) =
           Some (if takeWhile (\<lambda>c. c \<noteq> CHR ''.'') rest = [] then a
                 else takeWhile (\<lambda>c. c \<noteq> CHR ''.'') rest)"
proof -
  obtain x xs where sp: "String_split (CHR ''.'') rest = x # xs"
    using String_split_not_Nil [of "CHR ''.''" rest]
    by (cases "String_split (CHR ''.'') rest") auto
  have x: "x = takeWhile (\<lambda>c. c \<noteq> CHR ''.'') rest"
    using String_split_hd [of "CHR ''.''" rest] sp by simp
  show ?thesis
    using assms sp x
    by (simp add: moduleStringRenderer_def String_split_first_sep js_index_def)
qed

text \<open>
  C8. For every string, \<open>moduleStringRenderer\<close> splits it on the dot. When the value has
  no dot the split has one segment and the value is returned unchanged. When it has a
  dot, the first segment is the text before the first dot and the second segment is the
  text between the first dot and the next one (or the end); the second segment is
  returned when it is not empty, and the first segment when the second is empty.
\<close>

theorem moduleStringRenderer_segments:
  "(CHR ''.'' \<notin> set v \<longrightarrow>
      String_split (CHR ''.'') v = [v] \<and> moduleStringRenderer v = Some v) \<and>
   (CHR ''.'' \<in> set v \<longrightarrow>
      (\<exists>s0 s1 ss. String_split (CHR ''.'') v = s0 # s1 # ss \<and>
         s0 = takeWhile (\<lambda>c. c \<noteq> CHR ''.'') v \<and>
         s1 = takeWhile (\<lambda>c. c \<noteq> CHR ''.'') (tl (dropWhile (\<lambda>c. c \<noteq> CHR ''.'') v)) \<and>
         moduleStringRenderer v = Some (if s1 \<noteq> [] then s1 else s0)))"
proof (intro conjI impI)
  assume "CHR ''.'' \<notin> set v"
  then show "String_split (CHR ''.'') v = [v]" by (rule String_split_no_sep)
next
  assume "CHR ''.'' \<notin> set v"
  then show "moduleStringRenderer v = Some v" by (rule moduleStringRenderer_no_dot)
next
  let ?d = "CHR ''.''"
  let ?a = "takeWhile (\<lambda>c. c \<noteq> ?d) v"
  let ?r = "tl (dropWhile (\<lambda>c. c \<noteq> ?d) v)"
  assume dot: "?d \<in> set v"
  then have "dropWhile (\<lambda>c. c \<noteq> ?d) v \<noteq> []" by simp
  moreover have "hd (dropWhile (\<lambda>c. c \<noteq> ?d) v) = ?d"
    using hd_dropWhile [of "\<lambda>c. c \<noteq> ?d" v] \<open>dropWhile (\<lambda>c. c \<noteq> ?d) v \<noteq> []\<close> by simp
  ultimately have dw: "dropWhile (\<lambda>c. c \<noteq> ?d) v = ?d # ?r"
    by (cases "dropWhile (\<lambda>c. c \<noteq> ?d) v") auto
  have v: "v = ?a @ ?d # ?r"
    using takeWhile_dropWhile_id [of "\<lambda>c. c \<noteq> ?d" v] dw by simp
  have a: "?d \<notin> set ?a"
    by (auto dest: set_takeWhileD)
  obtain x xs where sp: "String_split ?d ?r = x # xs"
    using String_split_not_Nil [of ?d ?r] by (cases "String_split ?d ?r") auto
  have x: "x = takeWhile (\<lambda>c. c \<noteq> ?d) ?r"
    using String_split_hd [of ?d ?r] sp by simp
  have split: "String_split ?d v = ?a # x # xs"
    using String_split_first_sep [OF a, of ?r] v sp by simp
  have res: "moduleStringRenderer v = Some (if x \<noteq> [] then x else ?a)"
    using moduleStringRenderer_dot [OF a, of ?r] v x by auto
  show "\<exists>s0 s1 ss. String_split ?d v = s0 # s1 # ss \<and> s0 = ?a \<and>
          s1 = takeWhile (\<lambda>c. c \<noteq> ?d) ?r \<and>
          moduleStringRenderer v = Some (if s1 \<noteq> [] then s1 else s0)"
    using split x res by blast
qed

theorem moduleStringRenderer_segments_witness:
  "moduleStringRenderer ''zeek.connection'' = Some ''connection'' \<and>
   moduleStringRenderer ''zeek.'' = Some ''zeek'' \<and>
   moduleStringRenderer ''zeek'' = Some ''zeek'' \<and>
   String_split (CHR ''.'') ''zeek'' = [''zeek'']"
proof -
  have 1: "moduleStringRenderer ''zeek.connection'' = Some ''connection''"
    using moduleStringRenderer_segments [of "''zeek.connection''"] by auto
  have 2: "moduleStringRenderer ''zeek.'' = Some ''zeek''"
    using moduleStringRenderer_segments [of "''zeek.''"] by auto
  have 3: "moduleStringRenderer ''zeek'' = Some ''zeek'' \<and>
           String_split (CHR ''.'') ''zeek'' = [''zeek'']"
    using moduleStringRenderer_segments [of "''zeek''"] by simp
  from 1 2 3 show ?thesis by simp
qed

section \<open>The connection-state dictionary\<close>

lemma zeekConnLogDictionay_keys: "map fst (zeekConnLogDictionay i18n) = zeek_codes"
  by (simp add: zeekConnLogDictionay_def zeek_codes_def)

lemma zeek_codes_thirteen: "length zeek_codes = 13 \<and> distinct zeek_codes"
  by (simp add: zeek_codes_def)

lemma zeek_codes_not_inherited: "set zeek_codes \<inter> set Object_prototype_keys = {}"
  by (simp add: zeek_codes_def Object_prototype_keys_def)

lemma zeekConnLogDictionay_known:
  "st \<in> set zeek_codes \<Longrightarrow> map_of (zeekConnLogDictionay i18n) st = Some (i18n st)"
  by (auto simp: zeek_codes_def zeekConnLogDictionay_def)

lemma zeekConnLogDictionay_unknown:
  "st \<notin> set zeek_codes \<Longrightarrow> map_of (zeekConnLogDictionay i18n) st = None"
  using zeekConnLogDictionay_keys [of i18n]
  by (metis map_of_eq_None_iff set_map)

lemma extractStateLink_null: "extractStateLink i18n native_text None = None"
  by (simp add: extractStateLink_def)

lemma extractStateLink_known:
  "st \<in> set zeek_codes \<Longrightarrow>
     extractStateLink i18n native_text (Some st) = Some (st @ '' '' @ i18n st)"
  by (simp add: extractStateLink_def js_get_def zeekConnLogDictionay_known)

lemma extractStateLink_unknown:
  "st \<notin> set zeek_codes \<Longrightarrow> st \<notin> set Object_prototype_keys \<Longrightarrow>
     extractStateLink i18n native_text (Some st) = Some st"
  by (simp add: extractStateLink_def js_get_def zeekConnLogDictionay_unknown)

lemma extractStateValue_null: "extractStateValue i18n None = None"
  by (simp add: extractStateValue_def)

lemma extractStateValue_known:
  "st \<in> set zeek_codes \<Longrightarrow> extractStateValue i18n (Some st) = Some (JString (i18n st))"
  by (simp add: extractStateValue_def js_get_def zeekConnLogDictionay_known)

lemma extractStateValue_unknown:
  "st \<notin> set zeek_codes \<Longrightarrow> st \<notin> set Object_prototype_keys \<Longrightarrow>
     extractStateValue i18n (Some st) = None"
  by (simp add: extractStateValue_def js_get_def zeekConnLogDictionay_unknown)

lemma extractStateLink_inherited:
  "st \<in> set Object_prototype_keys \<Longrightarrow>
     extractStateLink i18n native_text (Some st) = Some (st @ '' '' @ native_text st)"
proof -
  assume k: "st \<in> set Object_prototype_keys"
  then have "st \<notin> set zeek_codes" using zeek_codes_not_inherited by blast
  with k show ?thesis
    by (simp add: extractStateLink_def js_get_def zeekConnLogDictionay_unknown)
qed

lemma extractStateValue_inherited:
  "st \<in> set Object_prototype_keys \<Longrightarrow>
     extractStateValue i18n (Some st) = Some (JInherited st)"
proof -
  assume k: "st \<in> set Object_prototype_keys"
  then have "st \<notin> set zeek_codes" using zeek_codes_not_inherited by blast
  with k show ?thesis
    by (simp add: extractStateValue_def js_get_def zeekConnLogDictionay_unknown)
qed

text \<open>
  C7. The claim: \<open>extractStateLink\<close> returns the state unchanged for every string that is
  not one of the thirteen codes, and \<open>extractStateValue\<close> returns null for it. The lemmas
  above prove this for every string that is not a property name of
  \<^verbatim>\<open>Object.prototype\<close>. For those names the dictionary read finds the inherited member:
  at \<^verbatim>\<open>'constructor'\<close>, which is not a code, \<open>extractStateLink\<close> appends the text of
  the built-in function to the state and \<open>extractStateValue\<close> returns the function, not
  null.
\<close>

theorem extractState_constructor:
  "''constructor'' \<notin> set zeek_codes \<and>
   extractStateLink i18n native_text (Some ''constructor'') =
     Some (''constructor '' @ native_text ''constructor'') \<and>
   extractStateLink i18n native_text (Some ''constructor'') \<noteq> Some ''constructor'' \<and>
   extractStateValue i18n (Some ''constructor'') = Some (JInherited ''constructor'') \<and>
   extractStateValue i18n (Some ''constructor'') \<noteq> None"
  by (simp add: extractStateLink_def extractStateValue_def js_get_def
      zeekConnLogDictionay_def zeek_codes_def Object_prototype_keys_def)

section \<open>The filter type guards\<close>

lemma value_in_FilterLeaf: "js_in ''value'' (FilterLeaf_keys l) \<longleftrightarrow> leaf_value l \<noteq> None"
  by (simp add: js_in_def FilterLeaf_keys_def Object_prototype_keys_def)

lemma isFilterLeafWithoutValue_iff: "isFilterLeafWithoutValue l \<longleftrightarrow> leaf_value l = None"
  by (simp add: isFilterLeafWithoutValue_def value_in_FilterLeaf)

lemma from_to_in_FilterValue:
  "js_in ''from'' (FilterValue_keys v) \<and> js_in ''to'' (FilterValue_keys v) \<longleftrightarrow>
     (\<exists>a b. v = RangeValue a b) \<or>
     (\<exists>vs. v = ArrayValue vs \<and> ''from'' \<in> set (map Number_toString [0..<length vs]) \<and>
        ''to'' \<in> set (map Number_toString [0..<length vs]))"
  by (cases v) (auto simp: js_in_def Object_prototype_keys_def)

lemma isFilterWithRange_iff:
  "isFilterWithRange l \<longleftrightarrow> (\<exists>a b. leaf_value l = Some (RangeValue a b))"
proof (cases "leaf_value l")
  case None
  then show ?thesis by (simp add: isFilterWithRange_def)
next
  case (Some v)
  then show ?thesis
    by (cases v) (simp_all add: isFilterWithRange_def value_in_FilterLeaf, simp_all add: js_in_def)
qed

lemma isFilterNode_iff: "isFilterNode f \<longleftrightarrow> (\<exists>c fs. f = FilterNode c fs)"
  by (cases f)
     (simp_all add: isFilterNode_def js_in_def FilterLeaf_keys_def Object_prototype_keys_def)

text \<open>
  C10. The guards discriminate the filter types. For every filter, \<open>isFilterNode\<close> holds
  exactly when the filter is a node. For every leaf of type \<^verbatim>\<open>FilterLeaf\<close> (one of the
  four leaf interfaces), \<open>isFilterLeafWithoutValue\<close> holds exactly when the leaf is a
  \<^verbatim>\<open>FilterWithoutValue\<close>, that is when its operation is \<^verbatim>\<open>exists\<close> or
  \<^verbatim>\<open>does not exist\<close>, and \<open>isFilterWithRange\<close> holds exactly when it is a
  \<^verbatim>\<open>FilterWithRange\<close>, that is when its operation is \<^verbatim>\<open>is between\<close> or
  \<^verbatim>\<open>is not between\<close>.
\<close>

theorem filter_guards_discriminate:
  "(isFilterNode f \<longleftrightarrow> (\<exists>c fs. f = FilterNode c fs)) \<and>
   (FilterLeaf_typed l \<longrightarrow>
      (isFilterLeafWithoutValue l \<longleftrightarrow> FilterWithoutValue l) \<and>
      (isFilterLeafWithoutValue l \<longleftrightarrow> operation l = EXISTS \<or> operation l = DOES_NOT_EXIST) \<and>
      (isFilterWithRange l \<longleftrightarrow> FilterWithRange l) \<and>
      (isFilterWithRange l \<longleftrightarrow> operation l = IS_BETWEEN \<or> operation l = IS_NOT_BETWEEN))"
proof (intro conjI impI)
  show "isFilterNode f \<longleftrightarrow> (\<exists>c fs. f = FilterNode c fs)" by (rule isFilterNode_iff)
next
  assume t: "FilterLeaf_typed l"
  then show "isFilterLeafWithoutValue l \<longleftrightarrow> FilterWithoutValue l"
    by (auto simp: isFilterLeafWithoutValue_iff FilterLeaf_typed_def FilterWithoutValue_def
        FilterWithSingleValue_def FilterWithMultipleValues_def FilterWithRange_def
        split: option.splits FilterValue.splits)
  from t show "isFilterLeafWithoutValue l \<longleftrightarrow> operation l = EXISTS \<or> operation l = DOES_NOT_EXIST"
    by (auto simp: isFilterLeafWithoutValue_iff FilterLeaf_typed_def FilterWithoutValue_def
        FilterWithSingleValue_def FilterWithMultipleValues_def FilterWithRange_def
        split: option.splits FilterValue.splits)
  from t show "isFilterWithRange l \<longleftrightarrow> FilterWithRange l"
    by (auto simp: isFilterWithRange_iff FilterLeaf_typed_def FilterWithoutValue_def
        FilterWithSingleValue_def FilterWithMultipleValues_def FilterWithRange_def
        split: option.splits FilterValue.splits)
  from t show "isFilterWithRange l \<longleftrightarrow> operation l = IS_BETWEEN \<or> operation l = IS_NOT_BETWEEN"
    by (auto simp: isFilterWithRange_iff FilterLeaf_typed_def FilterWithoutValue_def
        FilterWithSingleValue_def FilterWithMultipleValues_def FilterWithRange_def
        split: option.splits FilterValue.splits)
qed

theorem filter_guards_discriminate_witness:
  "FilterLeaf_typed sample_leaf \<and> isFilterWithRange sample_leaf \<and>
   \<not> isFilterLeafWithoutValue sample_leaf \<and>
   isFilterNode (FilterNode AND [Leaf sample_leaf]) \<and> \<not> isFilterNode (Leaf sample_leaf)"
  using filter_guards_discriminate [of "FilterNode AND [Leaf sample_leaf]" sample_leaf]
        filter_guards_discriminate [of "Leaf sample_leaf" sample_leaf]
  by (simp add: sample_leaf_def FilterLeaf_typed_def FilterWithRange_def)

section \<open>pasteFilterData\<close>

lemma pasteFilterData_cases:
  "pasteFilterData num_text l path =
     (let form = TestSubject (''filter-'' @ path);
          params = ByTagName (ByTestSubject form ''filterParams'') ''input''
      in [Find form,
          Find (ByTestSubject form ''filterFieldSuggestionList''),
          ComboBoxSetElement (ByTestSubject form ''filterFieldSuggestionList'') (field l),
          Find (ByTestSubject form ''filterOperatorList''),
          ComboBoxSetElement (ByTestSubject form ''filterOperatorList'')
            (Operation_text (operation l))] @
         (case leaf_value l of
            None \<Rightarrow> []
          | Some (RangeValue a b) \<Rightarrow>
              [Find (ByTestSubject form ''range-start''), Find (ByTestSubject form ''range-end''),
               TypeText (ByTestSubject form ''range-start'') (text_or_empty num_text a),
               TypeText (ByTestSubject form ''range-end'') (text_or_empty num_text b)]
          | Some (ArrayValue vs) \<Rightarrow>
              [Find (ByTestSubject form ''filterParams''), Find params] @
              concat (map (\<lambda>v. [TypeText params v, TypeKey params ENTER]) vs)
          | Some (StringValue v) \<Rightarrow>
              [Find (ByTestSubject form ''filterParams''), Find params, TypeText params v]))"
  by (auto simp: pasteFilterData_def Let_def isFilterLeafWithoutValue_iff isFilterWithRange_iff
      value_from_def value_to_def split: option.splits FilterValue.splits)

section \<open>createFilter\<close>

text \<open>The dispatch on the constructor is the dispatch on \<open>isFilterNode\<close>.\<close>

lemma createFilter_by_guard:
  "createFilter num_text flt path =
     (if isFilterNode flt
      then createFilter_loop num_text (condition flt) (length (filters flt)) path False 0
             (filters flt)
      else pasteFilterData num_text (leaf flt) path)"
  by (cases flt) (simp_all add: isFilterNode_iff)

lemma createFilter_loop_enumerate:
  "createFilter_loop num_text cond n path (0 < k) k rest =
     concat (map (\<lambda>(i, f).
        (if i + 1 < n
         then addConditionalFilter cond (if i = 0 then path else path @ ''.'' @ Number_toString i)
         else [])
        @ createFilter num_text f (path @ ''.'' @ Number_toString i)) (enumerate k rest))"
proof (induction rest arbitrary: k)
  case Nil
  show ?case by simp
next
  case (Cons f rest)
  have c: "(int k < int n - 1) = (k + 1 < n)" by linarith
  have "createFilter_loop num_text cond n path True (k + 1) rest =
        createFilter_loop num_text cond n path (0 < Suc k) (Suc k) rest" by simp
  also have "\<dots> = concat (map (\<lambda>(i, f).
        (if i + 1 < n
         then addConditionalFilter cond (if i = 0 then path else path @ ''.'' @ Number_toString i)
         else [])
        @ createFilter num_text f (path @ ''.'' @ Number_toString i)) (enumerate (Suc k) rest))"
    by (rule Cons.IH)
  finally show ?case using c by (cases "k = 0") simp_all
qed

lemma createFilter_node_enumerate:
  "createFilter num_text (FilterNode cond fs) path =
     concat (map (\<lambda>(i, f).
        (if i + 1 < length fs
         then addConditionalFilter cond (if i = 0 then path else path @ ''.'' @ Number_toString i)
         else [])
        @ createFilter num_text f (path @ ''.'' @ Number_toString i)) (enumerate 0 fs))"
  using createFilter_loop_enumerate [of num_text cond "length fs" path 0 fs] by simp

lemma clicks_on_Nil: "clicks_on s [] = 0"
  by (simp add: clicks_on_def)

lemma clicks_on_append: "clicks_on s (xs @ ys) = clicks_on s xs + clicks_on s ys"
  by (simp add: clicks_on_def)

lemma clicks_on_concat: "clicks_on s (concat xss) = sum_list (map (clicks_on s) xss)"
  by (induction xss) (simp_all add: clicks_on_append, simp add: clicks_on_def)

lemma clicks_on_addConditionalFilter:
  "clicks_on ''add-or-filter'' (addConditionalFilter cond p) = (if cond = OR then 1 else 0)"
  "clicks_on ''add-and-filter'' (addConditionalFilter cond p) = (if cond = OR then 0 else 1)"
  by (simp_all add: clicks_on_def addConditionalFilter_def addOrFilter_def addAndFilter_def Let_def)

lemma clicks_on_pasteFilterData:
  "clicks_on s (pasteFilterData num_text l path) = 0"
proof -
  have "clicks_on s (concat (map (\<lambda>v. [TypeText e v, TypeKey e ENTER]) vs)) = 0" for e vs
    by (induction vs) (simp_all add: clicks_on_def)
  then show ?thesis
    by (auto simp: pasteFilterData_def Let_def clicks_on_append split: option.splits FilterValue.splits)
       (simp_all add: clicks_on_def)
qed

lemma joiner_count:
  "sum_list (map (\<lambda>(i, f). if i + 1 < n then (1::nat) else 0) (enumerate k rest)) =
     min (k + length rest) (n - 1) - min k (n - 1)"
  by (induction rest arbitrary: k) auto


lemma clicks_on_children_split:
  "sum_list (map (clicks_on s) (map (\<lambda>(i, f). J i @ C i f) xs)) =
     sum_list (map (\<lambda>(i, f). clicks_on s (J i)) xs) +
     sum_list (map (\<lambda>(i, f). clicks_on s (C i f)) xs)"
  by (induction xs) (auto simp: clicks_on_append)

lemma joiner_count_node:
  "sum_list (map (\<lambda>(i, f). if i + 1 < length fs then (1::nat) else 0) (enumerate 0 fs)) =
     length fs - 1"
  using joiner_count [of "length fs" 0 fs] by simp

lemma clicks_on_node_or:
  "clicks_on ''add-or-filter'' (createFilter num_text (FilterNode cond fs) path) =
     (if cond = OR then length fs - 1 else 0) +
     sum_list (map (\<lambda>(i, f). clicks_on ''add-or-filter''
        (createFilter num_text f (path @ ''.'' @ Number_toString i))) (enumerate 0 fs))"
proof -
  have j: "(\<lambda>(i, f). clicks_on ''add-or-filter''
              (if i + 1 < length fs
               then addConditionalFilter cond
                      (if i = 0 then path else path @ ''.'' @ Number_toString i)
               else [])) =
           (\<lambda>(i, f::'a Filter). if cond = OR then (if i + 1 < length fs then (1::nat) else 0) else 0)"
    by (auto simp: fun_eq_iff clicks_on_addConditionalFilter clicks_on_Nil)
  have z: "sum_list (map (\<lambda>(i, f). 0::nat) xs) = 0" for xs :: "(nat \<times> 'a Filter) list"
    by (induction xs) auto
  show ?thesis
    unfolding createFilter_node_enumerate clicks_on_concat clicks_on_children_split j
    using joiner_count_node [of fs] z by (cases "cond = OR") simp_all
qed

lemma clicks_on_node_and:
  "clicks_on ''add-and-filter'' (createFilter num_text (FilterNode cond fs) path) =
     (if cond = OR then 0 else length fs - 1) +
     sum_list (map (\<lambda>(i, f). clicks_on ''add-and-filter''
        (createFilter num_text f (path @ ''.'' @ Number_toString i))) (enumerate 0 fs))"
proof -
  have j: "(\<lambda>(i, f). clicks_on ''add-and-filter''
              (if i + 1 < length fs
               then addConditionalFilter cond
                      (if i = 0 then path else path @ ''.'' @ Number_toString i)
               else [])) =
           (\<lambda>(i, f::'a Filter). if cond = OR then 0 else (if i + 1 < length fs then (1::nat) else 0))"
    by (auto simp: fun_eq_iff clicks_on_addConditionalFilter clicks_on_Nil)
  have z: "sum_list (map (\<lambda>(i, f). 0::nat) xs) = 0" for xs :: "(nat \<times> 'a Filter) list"
    by (induction xs) auto
  show ?thesis
    unfolding createFilter_node_enumerate clicks_on_concat clicks_on_children_split j
    using joiner_count_node [of fs] z by (cases "cond = OR") simp_all
qed

text \<open>
  C5 (amended). A leaf is filled by \<open>pasteFilterData\<close>. For a node, the run is, for each
  child in list order and with its index \<open>i\<close>: the joiner action when \<open>i\<close> is not the
  last index (in the form at the node's path for the first child, at the child's path
  after it), then the run of \<open>createFilter\<close> on the child at path \<^verbatim>\<open>`${path}.${i}`\<close>.
  For a node with \<open>n \<ge> 1\<close> children the node itself adds exactly \<open>n - 1\<close> joiner
  clicks to those of its children: clicks on \<^verbatim>\<open>add-or-filter\<close> when its condition is
  \<^verbatim>\<open>OR\<close>, on \<^verbatim>\<open>add-and-filter\<close> otherwise. A node with no children does nothing.
\<close>

theorem createFilter_joins_children:
  "createFilter num_text (Leaf l) path = pasteFilterData num_text l path \<and>
   createFilter num_text (FilterNode cond fs) path =
     concat (map (\<lambda>(i, f).
        (if i + 1 < length fs
         then addConditionalFilter cond (if i = 0 then path else path @ ''.'' @ Number_toString i)
         else [])
        @ createFilter num_text f (path @ ''.'' @ Number_toString i)) (enumerate 0 fs)) \<and>
   (fs \<noteq> [] \<longrightarrow>
      int (clicks_on ''add-or-filter'' (createFilter num_text (FilterNode cond fs) path)) =
        (if cond = OR then int (length fs) - 1 else 0) +
        int (sum_list (map (\<lambda>(i, f). clicks_on ''add-or-filter''
          (createFilter num_text f (path @ ''.'' @ Number_toString i))) (enumerate 0 fs))) \<and>
      int (clicks_on ''add-and-filter'' (createFilter num_text (FilterNode cond fs) path)) =
        (if cond = OR then 0 else int (length fs) - 1) +
        int (sum_list (map (\<lambda>(i, f). clicks_on ''add-and-filter''
          (createFilter num_text f (path @ ''.'' @ Number_toString i))) (enumerate 0 fs)))) \<and>
   (fs = [] \<longrightarrow> createFilter num_text (FilterNode cond fs) path = [])"
proof (intro conjI impI)
  show "createFilter num_text (Leaf l) path = pasteFilterData num_text l path" by simp
  show "createFilter num_text (FilterNode cond fs) path =
     concat (map (\<lambda>(i, f).
        (if i + 1 < length fs
         then addConditionalFilter cond (if i = 0 then path else path @ ''.'' @ Number_toString i)
         else [])
        @ createFilter num_text f (path @ ''.'' @ Number_toString i)) (enumerate 0 fs))"
    by (rule createFilter_node_enumerate)
next
  assume ne: "fs \<noteq> []"
  then have n: "int (length fs - 1) = int (length fs) - 1"
    by (cases fs) simp_all
  show "int (clicks_on ''add-or-filter'' (createFilter num_text (FilterNode cond fs) path)) =
        (if cond = OR then int (length fs) - 1 else 0) +
        int (sum_list (map (\<lambda>(i, f). clicks_on ''add-or-filter''
          (createFilter num_text f (path @ ''.'' @ Number_toString i))) (enumerate 0 fs)))"
    unfolding clicks_on_node_or using n by simp
  show "int (clicks_on ''add-and-filter'' (createFilter num_text (FilterNode cond fs) path)) =
        (if cond = OR then 0 else int (length fs) - 1) +
        int (sum_list (map (\<lambda>(i, f). clicks_on ''add-and-filter''
          (createFilter num_text f (path @ ''.'' @ Number_toString i))) (enumerate 0 fs)))"
    unfolding clicks_on_node_and using n by simp
next
  assume "fs = []"
  then show "createFilter num_text (FilterNode cond fs) path = []" by simp
qed

theorem createFilter_joins_children_witness:
  "[Leaf sample_leaf, Leaf sample_leaf, Leaf sample_leaf] \<noteq> [] \<and>
   clicks_on ''add-or-filter''
     (createFilter Number_toString
        (FilterNode OR [Leaf sample_leaf, Leaf sample_leaf, Leaf sample_leaf]) ''0'') = 2 \<and>
   clicks_on ''add-and-filter''
     (createFilter Number_toString
        (FilterNode OR [Leaf sample_leaf, Leaf sample_leaf, Leaf sample_leaf]) ''0'') = 0 \<and>
   createFilter Number_toString (FilterNode OR ([] :: nat Filter list)) ''0'' = []"
proof -
  let ?fs = "[Leaf sample_leaf, Leaf sample_leaf, Leaf sample_leaf]"
  have empty: "createFilter Number_toString (FilterNode OR ([] :: nat Filter list)) ''0'' = []"
    using createFilter_joins_children [of Number_toString sample_leaf "''0''" OR "[]"] by blast
  have ne: "?fs \<noteq> []" by simp
  have leaf: "clicks_on s (createFilter Number_toString (Leaf sample_leaf) p) = 0" for s p
    by (simp add: clicks_on_pasteFilterData)
  have e: "enumerate 0 ?fs = [(0, Leaf sample_leaf), (1, Leaf sample_leaf), (2, Leaf sample_leaf)]"
    by (simp add: enumerate_eq_zip upt_rec)
  from createFilter_joins_children [of Number_toString sample_leaf "''0''" OR ?fs] ne
  have "int (clicks_on ''add-or-filter'' (createFilter Number_toString (FilterNode OR ?fs) ''0'')) =
        (if OR = OR then int (length ?fs) - 1 else 0) +
        int (sum_list (map (\<lambda>(i, f). clicks_on ''add-or-filter''
          (createFilter Number_toString f (''0'' @ ''.'' @ Number_toString i))) (enumerate 0 ?fs)))"
   and "int (clicks_on ''add-and-filter'' (createFilter Number_toString (FilterNode OR ?fs) ''0'')) =
        (if OR = OR then 0 else int (length ?fs) - 1) +
        int (sum_list (map (\<lambda>(i, f). clicks_on ''add-and-filter''
          (createFilter Number_toString f (''0'' @ ''.'' @ Number_toString i))) (enumerate 0 ?fs)))"
    by blast+
  then have "int (clicks_on ''add-or-filter'' (createFilter Number_toString (FilterNode OR ?fs) ''0'')) = 2"
    and "int (clicks_on ''add-and-filter'' (createFilter Number_toString (FilterNode OR ?fs) ''0'')) = 0"
    unfolding e by (simp_all add: leaf del: createFilter.simps)
  with empty show ?thesis by simp
qed

text \<open>
  C5 as stated, with \<open>n - 1\<close> joiner actions for every \<open>n\<close>, fails at the node with
  no children: the loop body never runs, so there are no joiner actions, and \<open>0 - 1\<close> is
  \<open>-1\<close>.
\<close>

theorem createFilter_empty_node_counterexample:
  "createFilter Number_toString (FilterNode AND ([] :: nat Filter list)) ''0'' = [] \<and>
   int (clicks_on ''add-and-filter''
          (createFilter Number_toString (FilterNode AND ([] :: nat Filter list)) ''0'')) +
   int (clicks_on ''add-or-filter''
          (createFilter Number_toString (FilterNode AND ([] :: nat Filter list)) ''0''))
     \<noteq> int (length ([] :: nat Filter list)) - 1"
  by (simp add: clicks_on_def)

lemma createFilter_calls_decrease:
  "createFilter_createFilter_loop_rel a b \<Longrightarrow> createFilter_measure a < createFilter_measure b"
  by (erule createFilter_createFilter_loop_rel.cases) (simp_all add: createFilter_measure_def)

text \<open>
  C6. \<open>createFilter\<close> terminates on every filter tree, and so does its loop from every
  state: every argument is in the accessible part of the call relation, which has three
  kinds of calls, from a node to the loop over its children, from the loop to
  \<open>createFilter\<close> on the next child, and from the loop to the loop over the remaining
  children, and each of them is on a smaller argument (lemma
  \<open>createFilter_calls_decrease\<close>).
\<close>

theorem createFilter_terminates:
  "createFilter_createFilter_loop_dom (Inl (num_text, (flt :: 'n Filter), path)) \<and>
   createFilter_createFilter_loop_dom
     (Inr (num_text, cond, n, path, started, index, (fs :: 'n Filter list)))"
proof -
  have "wfp (createFilter_createFilter_loop_rel ::
          (('n \<Rightarrow> string) \<times> 'n Filter \<times> string +
           ('n \<Rightarrow> string) \<times> BooleanRelation \<times> nat \<times> string \<times> bool \<times> nat \<times> 'n Filter list)
          \<Rightarrow> _ \<Rightarrow> bool)"
    by (rule wfp_if_convertible_to_nat) (rule createFilter_calls_decrease)
  then show ?thesis by (simp add: accp_wfpD)
qed

theorem createFilter_terminates_witness:
  "createFilter_createFilter_loop_dom
     (Inl (Number_toString, FilterNode OR [Leaf sample_leaf, FilterNode AND [Leaf sample_leaf]], ''0''))"
  using createFilter_terminates [of Number_toString "FilterNode OR [Leaf sample_leaf, FilterNode AND [Leaf sample_leaf]]" "''0''"]
  by simp


section \<open>Rounding to a double\<close>

lemma floor_log2_bounds:
  assumes "0 < q"
  shows "2 powi floor_log2 q \<le> q \<and> q < 2 powi (floor_log2 q + 1)"
proof -
  obtain a b where ab: "quotient_of q = (a, b)" by (cases "quotient_of q")
  then have b: "0 < b" by (rule quotient_of_denom_pos)
  have q: "q = of_int a / of_int b" using ab by (simp add: quotient_of_div)
  with assms b have a: "0 < a" by (simp add: zero_less_divide_iff)
  define d where "d = bitlen a - bitlen b"
  from bitlen_bounds [OF a] have a1: "2 ^ nat (bitlen a - 1) \<le> a" and a2: "a < 2 ^ nat (bitlen a)"
    by auto
  from bitlen_bounds [OF b] have b1: "2 ^ nat (bitlen b - 1) \<le> b" and b2: "b < 2 ^ nat (bitlen b)"
    by auto
  have la: "0 < bitlen a" and lb: "0 < bitlen b"
    using a b bitlen_eq_zero_iff [of a] bitlen_eq_zero_iff [of b]
      bitlen_nonneg [of a] bitlen_nonneg [of b] by linarith+
  have ra1: "(2::rat) powi (bitlen a - 1) \<le> of_int a"
  proof -
    have "(of_int (2 ^ nat (bitlen a - 1)) :: rat) \<le> of_int a" using a1 by (simp only: of_int_le_iff)
    then show ?thesis using la by (simp add: power_int_def)
  qed
  have ra2: "(of_int a :: rat) < 2 powi (bitlen a)"
  proof -
    have "(of_int a :: rat) < of_int (2 ^ nat (bitlen a))" using a2 by (simp only: of_int_less_iff)
    then show ?thesis using la by (simp add: power_int_def)
  qed
  have rb1: "(2::rat) powi (bitlen b - 1) \<le> of_int b"
  proof -
    have "(of_int (2 ^ nat (bitlen b - 1)) :: rat) \<le> of_int b" using b1 by (simp only: of_int_le_iff)
    then show ?thesis using lb by (simp add: power_int_def)
  qed
  have rb2: "(of_int b :: rat) < 2 powi (bitlen b)"
  proof -
    have "(of_int b :: rat) < of_int (2 ^ nat (bitlen b))" using b2 by (simp only: of_int_less_iff)
    then show ?thesis using lb by (simp add: power_int_def)
  qed
  have bpos: "(0::rat) < of_int b" using b by simp
  have lower: "(2::rat) powi (d - 1) \<le> q"
  proof -
    have "(2::rat) powi (d - 1) * of_int b \<le> 2 powi (d - 1) * 2 powi (bitlen b)"
      using rb2 by (intro mult_left_mono) (simp_all add: less_imp_le)
    also have "\<dots> = 2 powi (bitlen a - 1)"
      by (simp add: d_def flip: power_int_add)
    also have "\<dots> \<le> of_int a" by (rule ra1)
    finally show ?thesis using bpos by (simp add: q pos_le_divide_eq)
  qed
  have upper: "q < (2::rat) powi (d + 1)"
  proof -
    have "(of_int a :: rat) < 2 powi (bitlen a)" by (rule ra2)
    also have "\<dots> = 2 powi (d + 1) * 2 powi (bitlen b - 1)"
      by (simp add: d_def flip: power_int_add)
    also have "\<dots> \<le> 2 powi (d + 1) * of_int b"
      using rb1 by (intro mult_left_mono) simp_all
    finally show ?thesis using bpos by (simp add: q pos_divide_less_eq)
  qed
  have fl: "floor_log2 q = (if 2 powi d \<le> q then d else d - 1)"
    by (simp add: floor_log2_def ab d_def Let_def)
  show ?thesis
  proof (cases "(2::rat) powi d \<le> q")
    case True
    with fl upper show ?thesis by simp
  next
    case False
    with fl lower show ?thesis by simp
  qed
qed

lemma floor_log2_unique:
  assumes "(2::rat) powi l \<le> q" "q < 2 powi (l + 1)"
  shows "floor_log2 q = l"
proof -
  have "(0::rat) < 2 powi l" by simp
  with assms have q: "0 < q" by linarith
  let ?f = "floor_log2 q"
  from floor_log2_bounds [OF q] have f1: "2 powi ?f \<le> q" and f2: "q < 2 powi (?f + 1)" by auto
  have "(2::rat) powi l < 2 powi (?f + 1)" using assms(1) f2 by linarith
  then have 1: "l < ?f + 1"
    using power_int_increasing [of "?f + 1" l "2::rat"] by (cases "l < ?f + 1") auto
  have "(2::rat) powi ?f < 2 powi (l + 1)" using assms(2) f1 by linarith
  then have 2: "?f < l + 1"
    using power_int_increasing [of "l + 1" ?f "2::rat"] by (cases "?f < l + 1") auto
  from 1 2 show ?thesis by linarith
qed


lemma round_half_even_int: "round_half_even (of_int i) = i"
  by (simp add: round_half_even_def)

lemma round_half_even_nat: "round_half_even (of_nat m) = int m"
  by (simp add: round_half_even_def)

lemma Number_value_double:
  assumes "is_double (Finite neg m e)"
  shows "Number_value (of_nat m * 2 powi e) = Finite False m e"
proof -
  let ?q = "of_nat m * 2 powi e :: rat"
  from assms have m: "0 < m" and m53: "m < 2 ^ 53" and e1: "- 1074 \<le> e" and e2: "e \<le> 971"
    and cases: "2 ^ 52 \<le> m \<or> e = - 1074"
    by (auto simp: is_double_def)
  have q: "0 < ?q" using m by simp
  have upper: "?q < 2 powi (53 + e)"
  proof -
    have "(of_nat m :: rat) < of_nat (2 ^ 53)" using m53 by (simp only: of_nat_less_iff)
    then have "(of_nat m :: rat) < 2 powi 53" by simp
    then have "?q < 2 powi 53 * 2 powi e" by (intro mult_strict_right_mono) simp_all
    then show ?thesis by (simp add: power_int_add)
  qed
  have fl: "floor_log2 ?q - 52 \<le> e"
  proof -
    from floor_log2_bounds [OF q] upper have "(2::rat) powi floor_log2 ?q < 2 powi (53 + e)"
      by linarith
    then have "floor_log2 ?q < 53 + e"
      using power_int_increasing [of "53 + e" "floor_log2 ?q" "2::rat"]
      by (cases "floor_log2 ?q < 53 + e") auto
    then show ?thesis by simp
  qed
  have ex: "max (- 1074) (floor_log2 ?q - 52) = e"
  proof (cases "2 ^ 52 \<le> m")
    case True
    then have "(of_nat (2 ^ 52) :: rat) \<le> of_nat m" by (simp only: of_nat_le_iff)
    then have "(2::rat) powi 52 \<le> of_nat m" by simp
    then have "(2::rat) powi 52 * 2 powi e \<le> ?q" by (intro mult_right_mono) simp_all
    then have "(2::rat) powi (52 + e) \<le> ?q" by (simp add: power_int_add)
    moreover have "?q < 2 powi (52 + e + 1)" using upper by (simp add: add.commute add.left_commute)
    ultimately have "floor_log2 ?q = 52 + e" by (rule floor_log2_unique)
    with e1 show ?thesis by simp
  next
    case False
    with cases have "e = - 1074" by simp
    with fl show ?thesis by simp
  qed
  have d: "?q / 2 powi e = of_int (int m)" by simp
  have r: "round_half_even (?q / 2 powi e) = int m"
    unfolding d by (rule round_half_even_int)
  have ne: "int m \<noteq> 2 ^ 53"
  proof
    assume "int m = 2 ^ 53"
    then have "m = 2 ^ 53" by (metis of_nat_eq_iff of_nat_numeral of_nat_power)
    with m53 show False by simp
  qed
  have nq: "\<not> ?q \<le> 0" using q by simp
  show ?thesis
    using m e2 ne by (simp add: Number_value_def nq ex round_half_even_nat Let_def)
qed

lemma strip_zeros_value:
  "strip_zeros s p = (s', p') \<Longrightarrow>
     (of_nat s' :: rat) * 10 powi p' = of_nat s * 10 powi p \<and> (0 < s \<longrightarrow> 0 < s')"
proof (induction s p rule: strip_zeros.induct)
  case (1 s p)
  show ?case
  proof (cases "0 < s \<and> s mod 10 = 0")
    case True
    with "1.prems" have "strip_zeros (s div 10) (p + 1) = (s', p')"
      by (subst (asm) strip_zeros.simps) simp
    with True "1.IH" have ih: "(of_nat s' :: rat) * 10 powi p' = of_nat (s div 10) * 10 powi (p + 1)"
      and pos: "0 < s div 10 \<longrightarrow> 0 < s'" by auto
    from True have s: "s = 10 * (s div 10)" by auto
    have "(of_nat (s div 10) :: rat) * 10 powi (p + 1) = of_nat (10 * (s div 10)) * 10 powi p"
      by (simp add: power_int_add)
    with s ih have "(of_nat s' :: rat) * 10 powi p' = of_nat s * 10 powi p" by simp
    moreover from True s have "0 < s div 10" by linarith
    ultimately show ?thesis using pos by simp
  next
    case False
    with "1.prems" have "s' = s" "p' = p"
      by (subst (asm) strip_zeros.simps, simp)+
    then show ?thesis by simp
  qed
qed

lemma exact_decimal_value:
  assumes "exact_decimal m e = (s, n)" "0 < m"
  shows "0 < s \<and>
         (of_nat s :: rat) * 10 powi (n - int (length (Number_toString s))) = of_nat m * 2 powi e"
proof (cases "0 \<le> e")
  case True
  obtain s' p' where st: "strip_zeros (m * 2 ^ nat e) 0 = (s', p')"
    by (cases "strip_zeros (m * 2 ^ nat e) 0")
  with assms True have s: "s = s'" and n: "n = int (length (Number_toString s')) + p'"
    by (auto simp: exact_decimal_def)
  from strip_zeros_value [OF st] assms(2)
  have "(of_nat s' :: rat) * 10 powi p' = of_nat (m * 2 ^ nat e)" and "0 < s'" by simp_all
  moreover have "(of_nat (m * 2 ^ nat e) :: rat) = of_nat m * 2 powi e"
    using True by (simp add: power_int_def)
  ultimately show ?thesis using s n by simp
next
  case False
  obtain s' p' where st: "strip_zeros (m * 5 ^ nat (- e)) e = (s', p')"
    by (cases "strip_zeros (m * 5 ^ nat (- e)) e")
  with assms False have s: "s = s'" and n: "n = int (length (Number_toString s')) + p'"
    by (auto simp: exact_decimal_def)
  from strip_zeros_value [OF st] assms(2)
  have v: "(of_nat s' :: rat) * 10 powi p' = of_nat (m * 5 ^ nat (- e)) * 10 powi e" and "0 < s'"
    by simp_all
  have "(10::rat) powi e = 1 / 10 ^ nat (- e)" "(2::rat) powi e = 1 / 2 ^ nat (- e)"
    using False by (simp_all add: power_int_def field_simps)
  moreover have "(10::rat) ^ nat (- e) = 2 ^ nat (- e) * 5 ^ nat (- e)"
    by (simp flip: power_mult_distrib)
  ultimately have "(of_nat (m * 5 ^ nat (- e)) :: rat) * 10 powi e = of_nat m * 2 powi e"
    by simp
  with v \<open>0 < s'\<close> s n show ?thesis by simp
qed

section \<open>The digits chosen by \<^verbatim>\<open>Number::toString\<close>\<close>

lemma closest_decimal_in: "closest_decimal q cs = Some c \<Longrightarrow> c \<in> set cs"
  by (induction cs arbitrary: c) (auto split: option.splits if_splits)

lemma in_filter_holds: "x \<in> set (filter P xs) \<Longrightarrow> P x"
  by simp

lemma digit_candidates_checked:
  assumes "(s, n) \<in> set (digit_candidates m e k)"
  shows "0 < s \<and> length (Number_toString s) = k \<and>
         Number_value (of_nat s * 10 powi (n - int k)) = Finite False m e"
proof -
  have "decimal_rounds_to m e k (s, n)"
    using assms unfolding digit_candidates_def Let_def by (rule in_filter_holds)
  then show ?thesis by (simp add: decimal_rounds_to_def)
qed

lemma shortest_decimal_from_rounds:
  "is_double (Finite neg m e) \<Longrightarrow> shortest_decimal_from m e k K = (s, n) \<Longrightarrow>
     0 < s \<and>
     Number_value (of_nat s * 10 powi (n - int (length (Number_toString s)))) = Finite False m e"
proof (induction m e k K rule: shortest_decimal_from.induct)
  case (1 m e k K)
  from "1.prems"(1) have m: "0 < m" by (auto simp: is_double_def)
  show ?case
  proof (cases "K \<le> k")
    case True
    with "1.prems" have ex: "exact_decimal m e = (s, n)"
      by (subst (asm) shortest_decimal_from.simps) simp
    from exact_decimal_value [OF ex m] Number_value_double [OF "1.prems"(1)]
    show ?thesis by simp
  next
    case False
    show ?thesis
    proof (cases "closest_decimal (of_nat m * 2 powi e) (digit_candidates m e k)")
      case None
      with False "1.prems" have "shortest_decimal_from m e (Suc k) K = (s, n)"
        by (subst (asm) shortest_decimal_from.simps) simp
      with False None "1.IH" "1.prems"(1) show ?thesis by simp
    next
      case (Some c)
      with False "1.prems" have c: "c = (s, n)"
        by (subst (asm) shortest_decimal_from.simps) simp
      with Some have "(s, n) \<in> set (digit_candidates m e k)"
        using closest_decimal_in by blast
      from digit_candidates_checked [OF this] show ?thesis by auto
    qed
  qed
qed

lemma shortest_decimal_rounds:
  assumes "is_double (Finite neg m e)" "shortest_decimal m e = (s, n)"
  shows "0 < s \<and>
         Number_value (of_nat s * 10 powi (n - int (length (Number_toString s)))) =
           Finite False m e"
  using assms shortest_decimal_from_rounds unfolding shortest_decimal_def by blast

section \<open>Decimal digits\<close>

lemma digit_char_digit: "d < 10 \<Longrightarrow> is_digit (digit_char d) \<and> digit_value (digit_char d) = d"
  by (simp add: is_digit_def digit_value_def digit_char_def)

lemma Number_toString_not_Nil: "Number_toString n \<noteq> []"
  by (subst Number_toString.simps) simp

lemma Number_toString_digits: "c \<in> set (Number_toString n) \<Longrightarrow> is_digit c"
proof (induction n arbitrary: c rule: Number_toString.induct)
  case (1 n)
  show ?case
  proof (cases "n < 10")
    case True
    with "1.prems" show ?thesis
      by (subst (asm) Number_toString.simps) (simp add: digit_char_digit)
  next
    case False
    with "1.prems" have "c \<in> set (Number_toString (n div 10)) \<or> c = digit_char (n mod 10)"
      by (subst (asm) Number_toString.simps) auto
    with False "1.IH" show ?thesis
      by (auto simp: digit_char_digit)
  qed
qed

lemma parse_digits_append:
  "(\<And>c. c \<in> set xs \<Longrightarrow> is_digit c) \<Longrightarrow>
     parse_digits acc (xs @ ys) = parse_digits (parse_digits acc xs) ys"
  by (induction xs arbitrary: acc) simp_all

lemma parse_digits_acc:
  "(\<And>c. c \<in> set xs \<Longrightarrow> is_digit c) \<Longrightarrow>
     parse_digits acc xs = acc * 10 ^ length xs + parse_digits 0 xs"
proof (induction xs arbitrary: acc)
  case Nil
  show ?case by simp
next
  case (Cons x xs)
  have "parse_digits acc (x # xs) = parse_digits (10 * acc + digit_value x) xs"
    using Cons.prems by simp
  also have "\<dots> = (10 * acc + digit_value x) * 10 ^ length xs + parse_digits 0 xs"
    using Cons.prems by (intro Cons.IH) simp
  also have "parse_digits 0 (x # xs) = digit_value x * 10 ^ length xs + parse_digits 0 xs"
    using Cons.prems Cons.IH [of "digit_value x"] by simp
  ultimately show ?case by (simp add: algebra_simps)
qed

lemma parse_digits_Number_toString: "parse_digits 0 (Number_toString n) = n"
proof (induction n rule: Number_toString.induct)
  case (1 n)
  show ?case
  proof (cases "n < 10")
    case True
    then show ?thesis
      by (subst Number_toString.simps) (simp add: digit_char_digit)
  next
    case False
    have "parse_digits 0 (Number_toString n) =
          parse_digits 0 (Number_toString (n div 10) @ [digit_char (n mod 10)])"
      using False by (subst Number_toString.simps) simp
    also have "\<dots> = parse_digits (parse_digits 0 (Number_toString (n div 10))) [digit_char (n mod 10)]"
      by (rule parse_digits_append) (rule Number_toString_digits)
    also have "\<dots> = 10 * (n div 10) + n mod 10"
      using False "1.IH" by (simp add: digit_char_digit)
    finally show ?thesis by simp
  qed
qed

lemma parse_digits_split:
  assumes "\<And>c. c \<in> set ds \<Longrightarrow> is_digit c"
  shows "parse_digits 0 ds =
           parse_digits 0 (take j ds) * 10 ^ length (drop j ds) + parse_digits 0 (drop j ds)"
proof -
  have t: "\<And>c. c \<in> set (take j ds) \<Longrightarrow> is_digit c"
    using assms by (auto dest: in_set_takeD)
  have "parse_digits 0 ds = parse_digits 0 (take j ds @ drop j ds)" by simp
  also have "\<dots> = parse_digits (parse_digits 0 (take j ds)) (drop j ds)"
    using t by (rule parse_digits_append)
  also have "\<dots> = parse_digits 0 (take j ds) * 10 ^ length (drop j ds) + parse_digits 0 (drop j ds)"
    using assms by (intro parse_digits_acc) (auto dest: in_set_dropD)
  finally show ?thesis .
qed

lemma zero_digit: "is_digit (CHR ''0'')" "digit_value (CHR ''0'') = 0"
  by (simp_all add: is_digit_def digit_value_def)

lemma parse_digits_zeros: "parse_digits 0 (replicate z (CHR ''0'') @ ds) = parse_digits 0 ds"
  by (induction z) (simp_all add: zero_digit)

lemma parse_digits_zeros_only: "parse_digits 0 (replicate z (CHR ''0'')) = 0"
  using parse_digits_zeros [of z "[]"] by simp

lemma not_digit:
  "\<not> is_digit (CHR ''.'')" "\<not> is_digit (CHR ''e'')" "\<not> is_digit (CHR ''-'')"
  "\<not> is_digit (CHR ''+'')" "\<not> is_digit (CHR ''N'')" "\<not> is_digit (CHR ''I'')"
  by (simp_all add: is_digit_def)

lemma digit_not_special:
  assumes "is_digit c"
  shows "c \<noteq> CHR ''.''" "c \<noteq> CHR ''e''" "c \<noteq> CHR ''E''" "c \<noteq> CHR ''-''" "c \<noteq> CHR ''+''"
    "c \<noteq> CHR ''I''" "\<not> is_StrWhiteSpaceChar c"
  using assms by (auto simp: is_digit_def is_StrWhiteSpaceChar_def)

lemma takeWhile_digits:
  assumes "\<And>c. c \<in> set ds \<Longrightarrow> is_digit c" "rest = [] \<or> \<not> is_digit (hd rest)"
  shows "takeWhile is_digit (ds @ rest) = ds" "dropWhile is_digit (ds @ rest) = rest"
proof -
  have r: "takeWhile is_digit rest = []" "dropWhile is_digit rest = rest"
    using assms(2) by (cases rest; simp)+
  show "takeWhile is_digit (ds @ rest) = ds"
    using assms(1) r by (simp add: takeWhile_append2)
  show "dropWhile is_digit (ds @ rest) = rest"
    using assms(1) r by (simp add: dropWhile_append2)
qed

lemma not_Infinity: "is_digit (hd str) \<Longrightarrow> take 8 str \<noteq> ''Infinity''"
proof
  assume d: "is_digit (hd str)" and t: "take 8 str = ''Infinity''"
  from t have "hd (take 8 str) = CHR ''I''" by simp
  moreover from t have "str \<noteq> []" by auto
  ultimately have "hd str = CHR ''I''" by (cases str) simp_all
  with d not_digit(6) show False by simp
qed

section \<open>Reading back what \<^verbatim>\<open>Number::toString\<close> prints\<close>

lemma hd_Number_toString_digit: "Number_toString n = c # cs \<Longrightarrow> is_digit c"
  using Number_toString_digits [of c n] by simp

lemma SignedInteger_value_signed:
  "SignedInteger_value (CHR ''+'' # Number_toString n) = Some (int n)"
  "SignedInteger_value (CHR ''-'' # Number_toString n) = Some (- int n)"
proof -
  obtain c cs where s: "Number_toString n = c # cs"
    using Number_toString_not_Nil [of n] by (cases "Number_toString n") auto
  then have d: "is_digit c" by (rule hd_Number_toString_digit)
  have p: "parse_digits 0 (c # cs) = n" using parse_digits_Number_toString [of n] s by simp
  show "SignedInteger_value (CHR ''+'' # Number_toString n) = Some (int n)"
    unfolding s SignedInteger_value_def using d p by simp
  show "SignedInteger_value (CHR ''-'' # Number_toString n) = Some (- int n)"
    unfolding s SignedInteger_value_def using d p by simp
qed

lemma ExponentPart_value_format:
  "ExponentPart_value
     (CHR ''e'' # (if c < 0 then ''-'' else ''+'') @ Number_toString (nat \<bar>c\<bar>)) = c"
  by (cases "c < 0") (simp_all add: ExponentPart_value_def SignedInteger_value_signed)

lemma ExponentPart_value_Nil: "ExponentPart_value [] = 0"
  by (simp add: ExponentPart_value_def)

lemma parse_without_fraction:
  assumes "\<And>c. c \<in> set ip \<Longrightarrow> is_digit c" "ip \<noteq> []"
    and "rest = [] \<or> (\<not> is_digit (hd rest) \<and> hd rest \<noteq> CHR ''.'')"
  shows "StrUnsignedDecimalLiteral_MV (ip @ rest) =
           Some (LDecimal (of_nat (parse_digits 0 ip) * 10 powi ExponentPart_value rest))"
proof -
  have hd: "is_digit (hd (ip @ rest))" using assms(1,2) by (cases ip) simp_all
  have inf: "take 8 (ip @ rest) \<noteq> ''Infinity''" using hd by (rule not_Infinity)
  have tw: "takeWhile is_digit (ip @ rest) = ip" "dropWhile is_digit (ip @ rest) = rest"
    using takeWhile_digits [of ip rest] assms(1,3) by auto
  show ?thesis
  proof (cases rest)
    case Nil
    then show ?thesis
      unfolding StrUnsignedDecimalLiteral_MV_def Let_def tw
      using inf assms(2) by (simp add: ExponentPart_value_Nil)
  next
    case (Cons c r)
    with assms(3) have "c \<noteq> CHR ''.''" by simp
    with Cons show ?thesis
      unfolding StrUnsignedDecimalLiteral_MV_def Let_def tw
      using inf assms(2) by simp
  qed
qed

lemma parse_with_fraction:
  assumes "\<And>c. c \<in> set ip \<Longrightarrow> is_digit c" "ip \<noteq> []"
    and "\<And>c. c \<in> set fp \<Longrightarrow> is_digit c"
    and "rest = [] \<or> \<not> is_digit (hd rest)"
  shows "StrUnsignedDecimalLiteral_MV (ip @ CHR ''.'' # fp @ rest) =
           Some (LDecimal
             ((of_nat (parse_digits 0 ip) + of_nat (parse_digits 0 fp) / 10 ^ length fp) *
              10 powi ExponentPart_value rest))"
proof -
  let ?str = "ip @ CHR ''.'' # fp @ rest"
  have hd: "is_digit (hd ?str)" using assms(1,2) by (cases ip) simp_all
  have inf: "take 8 ?str \<noteq> ''Infinity''" using hd by (rule not_Infinity)
  have tw1: "takeWhile is_digit ?str = ip" "dropWhile is_digit ?str = CHR ''.'' # fp @ rest"
    using takeWhile_digits [of ip "CHR ''.'' # fp @ rest"] assms(1) not_digit(1) by simp_all
  have tw2: "takeWhile is_digit (fp @ rest) = fp" "dropWhile is_digit (fp @ rest) = rest"
    using takeWhile_digits [of fp rest] assms(3,4) by auto
  show ?thesis
    unfolding StrUnsignedDecimalLiteral_MV_def Let_def tw1
    using inf assms(2) by (simp add: tw2)
qed

lemma parse_format_decimal:
  assumes "0 < s"
  shows "StrUnsignedDecimalLiteral_MV (format_decimal s n) =
           Some (LDecimal (of_nat s * 10 powi (n - int (length (Number_toString s)))))"
proof -
  define ds where "ds = Number_toString s"
  define k where "k = int (length ds)"
  have dig: "\<And>c. c \<in> set ds \<Longrightarrow> is_digit c"
    unfolding ds_def by (rule Number_toString_digits)
  have val: "parse_digits 0 ds = s"
    unfolding ds_def by (rule parse_digits_Number_toString)
  have dsne: "ds \<noteq> []" unfolding ds_def by (rule Number_toString_not_Nil)
  have k1: "1 \<le> k" using dsne by (cases ds) (simp_all add: k_def)
  define ex where "ex = CHR ''e'' # (if n - 1 < 0 then ''-'' else ''+'') @ Number_toString (nat \<bar>n - 1\<bar>)"
  have exv: "ExponentPart_value ex = n - 1"
    unfolding ex_def by (rule ExponentPart_value_format)
  have exhd: "\<not> is_digit (hd ex) \<and> hd ex \<noteq> CHR ''.''"
    by (simp add: ex_def not_digit)
  let ?mv = "of_nat s * 10 powi (n - k) :: rat"
  have split: "(of_nat s :: rat) =
      of_nat (parse_digits 0 (take j ds)) * 10 ^ length (drop j ds) +
      of_nat (parse_digits 0 (drop j ds))" for j
    using arg_cong [OF parse_digits_split [of ds j], of "of_nat :: nat \<Rightarrow> rat"] dig val by simp
  have fixed_a: "StrUnsignedDecimalLiteral_MV (ds @ replicate (nat (n - k)) (CHR ''0'')) =
                   Some (LDecimal ?mv)" if "k \<le> n"
  proof -
    let ?ip = "ds @ replicate (nat (n - k)) (CHR ''0'')"
    have all: "\<And>c. c \<in> set ?ip \<Longrightarrow> is_digit c" using dig by (auto simp: zero_digit)
    have "parse_digits 0 ?ip = parse_digits (parse_digits 0 ds) (replicate (nat (n - k)) (CHR ''0''))"
      using dig by (rule parse_digits_append)
    also have "\<dots> = s * 10 ^ nat (n - k) + parse_digits 0 (replicate (nat (n - k)) (CHR ''0''))"
      using parse_digits_acc [of "replicate (nat (n - k)) (CHR ''0'')" s] val
      by (simp add: zero_digit)
    finally have v: "parse_digits 0 ?ip = s * 10 ^ nat (n - k)"
      by (simp add: parse_digits_zeros_only)
    have "(10::rat) powi (n - k) = 10 ^ nat (n - k)" using that by (simp add: power_int_def)
    then have mv: "(of_nat (parse_digits 0 ?ip) :: rat) = ?mv"
      using v by simp
    have "?ip \<noteq> []" using dsne by simp
    from parse_without_fraction [of ?ip "[]", OF all this] mv
    show ?thesis by (simp add: ExponentPart_value_Nil)
  qed
  have fixed_b: "StrUnsignedDecimalLiteral_MV (take (nat n) ds @ CHR ''.'' # drop (nat n) ds) =
                   Some (LDecimal ?mv)" if "0 < n" "n < k"
  proof -
    let ?ip = "take (nat n) ds" and ?fp = "drop (nat n) ds"
    have ipd: "\<And>c. c \<in> set ?ip \<Longrightarrow> is_digit c" using dig by (auto dest: in_set_takeD)
    have fpd: "\<And>c. c \<in> set ?fp \<Longrightarrow> is_digit c" using dig by (auto dest: in_set_dropD)
    have ipne: "?ip \<noteq> []" using that dsne by simp
    have len: "length ?fp = nat (k - n)" using that by (simp add: k_def)
    have p: "(10::rat) powi (n - k) = 1 / 10 ^ nat (k - n)"
      using that by (simp add: power_int_def field_simps)
    have "(of_nat (parse_digits 0 ?ip) + of_nat (parse_digits 0 ?fp) / 10 ^ length ?fp :: rat) = ?mv"
      unfolding p split [of "nat n"] len by (simp add: field_simps)
    with parse_with_fraction [of ?ip ?fp "[]", OF ipd ipne fpd]
    show ?thesis by (simp add: ExponentPart_value_Nil)
  qed
  have fixed_c: "StrUnsignedDecimalLiteral_MV
                   (''0'' @ CHR ''.'' # (replicate (nat (- n)) (CHR ''0'') @ ds)) =
                   Some (LDecimal ?mv)" if "n \<le> 0"
  proof -
    let ?fp = "replicate (nat (- n)) (CHR ''0'') @ ds"
    have ipd: "\<And>c. c \<in> set ''0'' \<Longrightarrow> is_digit c" by (simp add: zero_digit)
    have fpd: "\<And>c. c \<in> set ?fp \<Longrightarrow> is_digit c" using dig by (auto simp: zero_digit)
    have len: "length ?fp = nat (k - n)" using that by (simp add: k_def nat_add_distrib)
    have v: "parse_digits 0 ?fp = s" using val by (simp add: parse_digits_zeros)
    have p: "(10::rat) powi (n - k) = 1 / 10 ^ nat (k - n)"
      using that k1 by (simp add: power_int_def field_simps)
    have "(of_nat (parse_digits 0 ''0'') + of_nat (parse_digits 0 ?fp) / 10 ^ length ?fp :: rat) = ?mv"
      unfolding len p v by (simp add: zero_digit)
    with parse_with_fraction [of "''0''" ?fp "[]", OF ipd _ fpd]
    show ?thesis by (simp add: ExponentPart_value_Nil)
  qed
  have exp_one: "StrUnsignedDecimalLiteral_MV (ds @ ex) = Some (LDecimal ?mv)" if "k = 1"
    using parse_without_fraction [of ds ex, OF dig dsne] exhd exv val that by simp
  have exp_many: "StrUnsignedDecimalLiteral_MV (take 1 ds @ CHR ''.'' # drop 1 ds @ ex) =
                    Some (LDecimal ?mv)" if "1 < k"
  proof -
    let ?ip = "take 1 ds" and ?fp = "drop 1 ds"
    have ipd: "\<And>c. c \<in> set ?ip \<Longrightarrow> is_digit c" using dig by (auto dest: in_set_takeD)
    have fpd: "\<And>c. c \<in> set ?fp \<Longrightarrow> is_digit c" using dig by (auto dest: in_set_dropD)
    have ipne: "?ip \<noteq> []" using dsne by simp
    have len: "length ?fp = nat (k - 1)" by (simp add: k_def)
    have p: "(10::rat) powi (n - k) = 10 powi (n - 1) / 10 ^ nat (k - 1)"
    proof -
      have "(10::rat) powi (n - k) = 10 powi ((n - 1) + (- (k - 1)))" by simp
      also have "\<dots> = 10 powi (n - 1) * 10 powi (- (k - 1))"
        by (rule power_int_add) simp
      also have "(10::rat) powi (- (k - 1)) = 1 / 10 ^ nat (k - 1)"
        using that by (simp add: power_int_def field_simps)
      finally show ?thesis by simp
    qed
    have "(of_nat (parse_digits 0 ?ip) + of_nat (parse_digits 0 ?fp) / 10 ^ length ?fp :: rat) *
          10 powi (n - 1) = ?mv"
      unfolding p split [of 1] len by (simp add: field_simps)
    with parse_with_fraction [of ?ip ?fp ex, OF ipd ipne fpd] exhd exv
    show ?thesis by simp
  qed
  have f: "format_decimal s n =
     (if - 5 \<le> n \<and> n \<le> 21 then
        (if k \<le> n then ds @ replicate (nat (n - k)) (CHR ''0'')
         else if 0 < n then take (nat n) ds @ CHR ''.'' # drop (nat n) ds
         else ''0'' @ CHR ''.'' # (replicate (nat (- n)) (CHR ''0'') @ ds))
      else if k = 1 then ds @ ex
      else take 1 ds @ CHR ''.'' # drop 1 ds @ ex)"
    by (simp add: format_decimal_def Let_def ds_def k_def ex_def)
  have "StrUnsignedDecimalLiteral_MV (format_decimal s n) = Some (LDecimal ?mv)"
  proof (cases "- 5 \<le> n \<and> n \<le> 21")
    case True
    show ?thesis
    proof (cases "k \<le> n")
      case a: True
      have "format_decimal s n = ds @ replicate (nat (n - k)) (CHR ''0'')"
        unfolding f by (simp only: True a if_True simp_thms)
      then show ?thesis using fixed_a [OF a] by simp
    next
      case na: False
      show ?thesis
      proof (cases "0 < n")
        case b: True
        have "format_decimal s n = take (nat n) ds @ CHR ''.'' # drop (nat n) ds"
          unfolding f by (simp only: True na b if_True if_False simp_thms)
        then show ?thesis using fixed_b [OF b] na by simp
      next
        case c: False
        have "format_decimal s n = ''0'' @ CHR ''.'' # (replicate (nat (- n)) (CHR ''0'') @ ds)"
          unfolding f by (simp only: True na c if_True if_False simp_thms)
        then show ?thesis using fixed_c c by simp
      qed
    qed
  next
    case False
    show ?thesis
    proof (cases "k = 1")
      case True
      have "format_decimal s n = ds @ ex"
        unfolding f by (simp only: False True if_True if_False simp_thms)
      then show ?thesis using exp_one [OF True] by simp
    next
      case nk: False
      with k1 have k: "1 < k" by simp
      have "format_decimal s n = take 1 ds @ CHR ''.'' # drop 1 ds @ ex"
        unfolding f by (simp only: False nk if_True if_False simp_thms)
      then show ?thesis using exp_many [OF k] by simp
    qed
  qed
  then show ?thesis by (simp add: k_def ds_def)
qed

lemma format_decimal_hd:
  "format_decimal s n \<noteq> [] \<and> is_digit (hd (format_decimal s n))"
proof -
  obtain d0 dr where ds: "Number_toString s = d0 # dr"
    using Number_toString_not_Nil [of s] by (cases "Number_toString s") auto
  then have d0: "is_digit d0" by (rule hd_Number_toString_digit)
  show ?thesis
    using d0 by (auto simp: format_decimal_def Let_def ds zero_digit take_Cons')
qed

lemma Number_value_zero: "Number_value 0 = Zero False"
  by (simp add: Number_value_def)

lemma parseFloat_string_unsigned:
  assumes "str \<noteq> []" "is_digit (hd str)"
  shows "parseFloat_string str = StringNumericValue (StrUnsignedDecimalLiteral_MV str)"
    and "parseFloat_string (CHR ''-'' # str) =
           negate (StringNumericValue (StrUnsignedDecimalLiteral_MV str))"
proof -
  obtain c cs where s: "str = c # cs" using assms(1) by (cases str) auto
  with assms(2) have c: "is_digit c" by simp
  show "parseFloat_string str = StringNumericValue (StrUnsignedDecimalLiteral_MV str)"
    unfolding s parseFloat_string_def Let_def using digit_not_special [OF c] by simp
  show "parseFloat_string (CHR ''-'' # str) =
           negate (StringNumericValue (StrUnsignedDecimalLiteral_MV str))"
    by (simp add: parseFloat_string_def is_StrWhiteSpaceChar_def)
qed

lemma parseFloat_string_ToString_finite:
  assumes "is_double (Finite neg m e)"
  shows "parseFloat_string (js_number_ToString (Finite neg m e)) = Finite neg m e"
proof -
  obtain s n where sn: "shortest_decimal m e = (s, n)" by (cases "shortest_decimal m e")
  from shortest_decimal_rounds [OF assms sn]
  have s: "0 < s"
    and r: "Number_value (of_nat s * 10 powi (n - int (length (Number_toString s)))) =
              Finite False m e" by simp_all
  have mv: "StringNumericValue (StrUnsignedDecimalLiteral_MV (format_decimal s n)) = Finite False m e"
    by (simp add: parse_format_decimal [OF s] StringNumericValue_def r)
  from format_decimal_hd [of s n]
  have ne: "format_decimal s n \<noteq> []" and hd: "is_digit (hd (format_decimal s n))" by simp_all
  show ?thesis
  proof (cases neg)
    case True
    then have "js_number_ToString (Finite neg m e) = CHR ''-'' # format_decimal s n"
      by (simp add: sn)
    with parseFloat_string_unsigned(2) [OF ne hd] mv True show ?thesis by simp
  next
    case False
    then have "js_number_ToString (Finite neg m e) = format_decimal s n"
      by (simp add: sn)
    with parseFloat_string_unsigned(1) [OF ne hd] mv False show ?thesis by simp
  qed
qed

lemma parseFloat_string_NaN: "parseFloat_string ''NaN'' = NaN"
  by (simp add: parseFloat_string_def is_StrWhiteSpaceChar_def StrUnsignedDecimalLiteral_MV_def
      StringNumericValue_def is_digit_def)

lemma parseFloat_string_Infinity:
  "parseFloat_string ''Infinity'' = Infinity False"
  "parseFloat_string ''-Infinity'' = Infinity True"
  by (simp_all add: parseFloat_string_def is_StrWhiteSpaceChar_def StrUnsignedDecimalLiteral_MV_def
      StringNumericValue_def is_digit_def)

lemma parseFloat_string_zero: "parseFloat_string ''0'' = Zero False"
  by (simp add: parseFloat_string_def is_StrWhiteSpaceChar_def StrUnsignedDecimalLiteral_MV_def
      StringNumericValue_def is_digit_def digit_value_def Number_value_zero)

lemma parseFloat_string_ToString:
  assumes "is_double x"
  shows "parseFloat_string (js_number_ToString x) = (if x = Zero True then Zero False else x)"
proof (cases x)
  case NaN
  then show ?thesis by (simp add: parseFloat_string_NaN)
next
  case (Infinity neg)
  then show ?thesis by (simp add: parseFloat_string_Infinity)
next
  case (Zero neg)
  then show ?thesis by (simp add: parseFloat_string_zero)
next
  case (Finite neg m e)
  with assms show ?thesis by (simp only: parseFloat_string_ToString_finite) simp
qed

section \<open>Settings: update and serialise\<close>

lemma parseFloat_number:
  "is_double x \<Longrightarrow> parseFloat (SNumber x) = (if x = Zero True then Zero False else x)"
  by (simp add: parseFloat_def parseFloat_string_ToString)

lemma parseFloat_negative_zero: "parseFloat (SNumber (Zero True)) = Zero False"
  by (simp add: parseFloat_def parseFloat_string_zero)

lemma Number_literal_14: "Number_literal 14 = Finite False 7881299347898368 (- 49)"
proof -
  have "Number_value (of_nat 7881299347898368 * 2 powi (- 49)) =
          Finite False 7881299347898368 (- 49)"
    by (rule Number_value_double [of False]) (simp add: is_double_def)
  moreover have "(of_nat 7881299347898368 * 2 powi (- 49) :: rat) = 14"
    by (simp add: power_int_minus)
  ultimately show ?thesis by (simp add: Number_literal_def)
qed

lemma map_storage_key_value: "key_value_storage map_storage"
  by (simp add: key_value_storage_def map_storage_def)

text \<open>What \<open>toJSON\<close> returns after \<open>updateSettings\<close>, for any settings object.\<close>

lemma toJSON_updateSettings:
  assumes "key_value_storage S"
  shows "toJSON S (updateSettings S s0 settings) =
           (DevToolsSettings_json settings)
             \<lparr>json_fontSize := parseFloat (SNumber (fontSize settings))\<rparr>"
proof -
  from assms have same: "\<And>s k v d. storage_get S (storage_set S s k v) k d = v"
    and other: "\<And>s k k' v d. k \<noteq> k' \<Longrightarrow>
          storage_get S (storage_set S s k v) k' d = storage_get S s k' d"
    by (simp_all add: key_value_storage_def)
  show ?thesis
    by (simp add: toJSON_def updateSettings_def DevToolsSettings_json_def Let_def
        getFontSize_def setFontSize_def getWrapMode_def setWrapMode_def
        getTripleQuotes_def setTripleQuotes_def getAutocomplete_def setAutocomplete_def
        getPolling_def setPolling_def getHistoryDisabled_def setHistoryDisabled_def
        getPollInterval_def setPollInterval_def same other)
qed

text \<open>
  C9 (amended). For every well-typed settings object and every storage that behaves as a
  key-value map, whatever it held before, \<open>updateSettings\<close> followed by \<open>toJSON\<close> returns
  the settings object when its font size is not the negative zero: each setter writes
  the key its getter reads, the seven keys are distinct, \<^verbatim>\<open>Boolean\<close> gives back the
  booleans, and \<^verbatim>\<open>parseFloat\<close> reads back the double whose text \<^verbatim>\<open>Number::toString\<close>
  printed. For the font size \<open>-0\<close> the text is \<^verbatim>\<open>0\<close> and the result has the font size
  \<open>+0\<close>, with the other fields as they were.
\<close>

theorem updateSettings_toJSON_roundtrip:
  assumes "key_value_storage S" "DevToolsSettings_typed settings"
  shows "(fontSize settings \<noteq> Zero True \<longrightarrow>
            toJSON S (updateSettings S s0 settings) = DevToolsSettings_json settings) \<and>
         (fontSize settings = Zero True \<longrightarrow>
            toJSON S (updateSettings S s0 settings) =
              DevToolsSettings_json (settings\<lparr>fontSize := Zero False\<rparr>))"
proof -
  from assms(2) have d: "is_double (fontSize settings)"
    by (simp add: DevToolsSettings_typed_def)
  show ?thesis
    unfolding toJSON_updateSettings [OF assms(1)] parseFloat_number [OF d]
    by (simp add: DevToolsSettings_json_def)
qed

theorem updateSettings_toJSON_roundtrip_witness:
  "key_value_storage map_storage \<and> DevToolsSettings_typed sample_settings \<and>
   fontSize sample_settings \<noteq> Zero True \<and>
   toJSON map_storage (updateSettings map_storage Map.empty sample_settings) =
     DevToolsSettings_json sample_settings \<and>
   json_fontSize (toJSON map_storage (updateSettings map_storage Map.empty sample_settings)) =
     Finite False 7036874417766400 (- 49) \<and>
   DevToolsSettings_typed (sample_settings\<lparr>fontSize := Zero True\<rparr>) \<and>
   json_fontSize (toJSON map_storage (updateSettings map_storage Map.empty
     (sample_settings\<lparr>fontSize := Zero True\<rparr>))) = Zero False"
proof -
  have t: "DevToolsSettings_typed sample_settings"
    by (simp add: DevToolsSettings_typed_def sample_settings_def is_double_def)
  have tz: "DevToolsSettings_typed (sample_settings\<lparr>fontSize := Zero True\<rparr>)"
    by (simp add: DevToolsSettings_typed_def sample_settings_def is_double_def)
  have f: "fontSize sample_settings \<noteq> Zero True" by (simp add: sample_settings_def)
  from updateSettings_toJSON_roundtrip [OF map_storage_key_value t, of Map.empty] f
  have 1: "toJSON map_storage (updateSettings map_storage Map.empty sample_settings) =
             DevToolsSettings_json sample_settings" by blast
  from updateSettings_toJSON_roundtrip [OF map_storage_key_value tz, of Map.empty]
  have 2: "toJSON map_storage (updateSettings map_storage Map.empty
             (sample_settings\<lparr>fontSize := Zero True\<rparr>)) =
           DevToolsSettings_json (sample_settings\<lparr>fontSize := Zero True, fontSize := Zero False\<rparr>)"
    by simp
  show ?thesis
    unfolding 1 2 using map_storage_key_value t tz f
    by (simp add: DevToolsSettings_json_def sample_settings_def)
qed

text \<open>
  C9 as stated, for every well-typed settings object, fails at the font size \<open>-0\<close>:
  \<^verbatim>\<open>Number::toString\<close> prints \<^verbatim>\<open>0\<close> for both zeros and \<^verbatim>\<open>parseFloat\<close> reads \<open>+0\<close>,
  so \<open>toJSON\<close> does not return the settings object that was stored.
\<close>

theorem updateSettings_toJSON_negative_zero_counterexample:
  "key_value_storage map_storage \<and>
   DevToolsSettings_typed (sample_settings\<lparr>fontSize := Zero True\<rparr>) \<and>
   toJSON map_storage
     (updateSettings map_storage Map.empty (sample_settings\<lparr>fontSize := Zero True\<rparr>)) \<noteq>
   DevToolsSettings_json (sample_settings\<lparr>fontSize := Zero True\<rparr>)"
proof -
  have tz: "DevToolsSettings_typed (sample_settings\<lparr>fontSize := Zero True\<rparr>)"
    by (simp add: DevToolsSettings_typed_def sample_settings_def is_double_def)
  have "json_fontSize (toJSON map_storage
          (updateSettings map_storage Map.empty (sample_settings\<lparr>fontSize := Zero True\<rparr>))) =
        Zero False"
    unfolding toJSON_updateSettings [OF map_storage_key_value]
    by (simp add: parseFloat_negative_zero)
  moreover have "json_fontSize (DevToolsSettings_json (sample_settings\<lparr>fontSize := Zero True\<rparr>)) =
        Zero True"
    by (simp add: DevToolsSettings_json_def)
  ultimately have "toJSON map_storage
     (updateSettings map_storage Map.empty (sample_settings\<lparr>fontSize := Zero True\<rparr>)) \<noteq>
     DevToolsSettings_json (sample_settings\<lparr>fontSize := Zero True\<rparr>)"
    by (metis js_number.inject(2))
  with map_storage_key_value tz show ?thesis by simp
qed

section \<open>Memory chart layers\<close>

text \<open>
  C4. \<open>getLayers\<close> throws the error \<^verbatim>\<open>Error generating the data layer for the chart\<close>
  exactly when \<open>insertOrReplaceFormulaColumn\<close>, called for the column
  \<^verbatim>\<open>y_memory_usage\<close> with the memory-usage formula, the base layer and the data view,
  returns no layer, and it throws no other error; otherwise it returns a record with
  exactly one entry, under \<open>DEFAULT_LAYER_ID\<close>, which is the layer that call returned.
\<close>

theorem getLayers_error_iff_no_layer:
  "(getLayers U M = Inl (Error ''Error generating the data layer for the chart'') \<longleftrightarrow>
      insertOrReplaceFormulaColumn M ''y_memory_usage'' memory_usage_formula
        (baseLayer U M) (dataView M) = None) \<and>
   (\<forall>e. getLayers U M = Inl e \<longrightarrow>
      e = Error ''Error generating the data layer for the chart'') \<and>
   (\<forall>layer.
      insertOrReplaceFormulaColumn M ''y_memory_usage'' memory_usage_formula
        (baseLayer U M) (dataView M) = Some layer \<longrightarrow>
      getLayers U M = Inr [DEFAULT_LAYER_ID U \<mapsto> layer]) \<and>
   (\<forall>layers. getLayers U M = Inr layers \<longrightarrow>
      dom layers = {DEFAULT_LAYER_ID U} \<and>
      layers (DEFAULT_LAYER_ID U) =
        insertOrReplaceFormulaColumn M ''y_memory_usage'' memory_usage_formula
          (baseLayer U M) (dataView M))"
  by (cases "insertOrReplaceFormulaColumn M ''y_memory_usage'' memory_usage_formula
        (baseLayer U M) (dataView M)")
     (auto simp: getLayers_def)

theorem getLayers_error_iff_no_layer_witness:
  "getLayers sample_utils sample_memory_failing =
     Inl (Error ''Error generating the data layer for the chart'') \<and>
   (case getLayers sample_utils sample_memory of
      Inl e \<Rightarrow> False
    | Inr layers \<Rightarrow> dom layers = {''layer1''} \<and>
        map_option columnOrder (layers ''layer1'') =
          Some [''hosts_aggs_breakdown'', ''x_date_histogram'', ''y_memory_usage''])"
proof -
  have f: "insertOrReplaceFormulaColumn sample_memory_failing ''y_memory_usage''
             memory_usage_formula (baseLayer sample_utils sample_memory_failing)
             (dataView sample_memory_failing) = None"
    by (simp add: sample_memory_failing_def sample_memory_def)
  have 1: "getLayers sample_utils sample_memory_failing =
             Inl (Error ''Error generating the data layer for the chart'')"
    using getLayers_error_iff_no_layer [of sample_utils sample_memory_failing] f by blast
  have s: "insertOrReplaceFormulaColumn sample_memory ''y_memory_usage''
             memory_usage_formula (baseLayer sample_utils sample_memory)
             (dataView sample_memory) =
           Some ((baseLayer sample_utils sample_memory)
                   \<lparr>columnOrder := columnOrder (baseLayer sample_utils sample_memory) @
                                    [''y_memory_usage'']\<rparr>)"
    by (simp add: sample_memory_def)
  have 2: "getLayers sample_utils sample_memory =
             Inr [DEFAULT_LAYER_ID sample_utils \<mapsto>
                  (baseLayer sample_utils sample_memory)
                   \<lparr>columnOrder := columnOrder (baseLayer sample_utils sample_memory) @
                                    [''y_memory_usage'']\<rparr>]"
    using getLayers_error_iff_no_layer [of sample_utils sample_memory] s by blast
  show ?thesis
    unfolding 1 2
    by (simp add: sample_utils_def baseLayer_def BREAKDOWN_COLUMN_NAME_def
        HISTOGRAM_COLUMN_NAME_def)
qed

section \<open>Guided onboarding state\<close>

lemma savedObjects_create_new:
  "oid \<notin> fst ` set so \<Longrightarrow> savedObjects_create so oid a = so @ [(oid, a)]"
  by (induction so) auto

lemma savedObjects_create_lookup:
  "map_of (savedObjects_create so oid a) = (map_of so)(oid \<mapsto> a)"
  by (induction so) (auto simp: fun_eq_iff)

lemma savedObjects_create_keys:
  "set (map fst (savedObjects_create so oid a)) = insert oid (set (map fst so))"
  by (induction so oid a rule: savedObjects_create.induct) auto

lemma savedObjects_create_distinct:
  "distinct (map fst so) \<Longrightarrow> distinct (map fst (savedObjects_create so oid a))"
proof (induction so)
  case Nil
  show ?case by simp
next
  case (Cons kv so)
  obtain k v where kv: "kv = (k, v)" by (cases kv)
  show ?case
  proof (cases "k = oid")
    case True
    with Cons.prems kv show ?thesis by simp
  next
    case False
    have "k \<notin> set (map fst (savedObjects_create so oid a))"
      using Cons.prems kv False savedObjects_create_keys [of so oid a] by auto
    with Cons kv False show ?thesis by simp
  qed
qed

lemma createGuides_lookup:
  "map_of (createGuides so guides) = foldl (\<lambda>m g. m(guideId g \<mapsto> g)) (map_of so) guides"
  by (induction guides arbitrary: so) (simp_all add: savedObjects_create_lookup)

lemma createGuides_distinct:
  "distinct (map fst so) \<Longrightarrow> distinct (map fst (createGuides so guides))"
  by (induction guides arbitrary: so) (simp_all add: savedObjects_create_distinct)

lemma createGuides_fresh:
  "distinct (map fst so @ map guideId guides) \<Longrightarrow>
     createGuides so guides = so @ map (\<lambda>g. (guideId g, g)) guides"
proof (induction guides arbitrary: so)
  case Nil
  show ?case by simp
next
  case (Cons g guides)
  from Cons.prems have new: "guideId g \<notin> fst ` set so" by auto
  from Cons.prems have "distinct (map fst (so @ [(guideId g, g)]) @ map guideId guides)"
    by auto
  then have "createGuides (so @ [(guideId g, g)]) guides =
               (so @ [(guideId g, g)]) @ map (\<lambda>g. (guideId g, g)) guides"
    by (rule Cons.IH)
  with new show ?case by (simp add: savedObjects_create_new)
qed

lemma createGuides_from_empty:
  "distinct (map guideId guides) \<Longrightarrow> map snd (createGuides [] guides) = guides"
  using createGuides_fresh [of "[]" guides] by (simp add: comp_def)

text \<open>
  C1. For every content of the saved-object store, the request with \<^verbatim>\<open>active=true\<close>
  returns status 200 and a state array that holds exactly the stored guides whose
  \<open>isActive\<close> is true; after \<open>createGuides\<close> on an empty store with guides of distinct
  ids, these are the active ones among the guides created, in order.
\<close>

theorem get_state_active_only:
  "status_code (get_state so (Some True)) = 200 \<and>
   state (get_state so (Some True)) = filter isActive (map snd so) \<and>
   set (state (get_state so (Some True))) = {g \<in> snd ` set so. isActive g} \<and>
   (distinct (map guideId guides) \<longrightarrow>
      get_state (createGuides [] guides) (Some True) =
        \<lparr>status_code = 200, state = filter isActive guides\<rparr>)"
  by (auto simp: get_state_def createGuides_from_empty)

theorem get_state_active_only_witness:
  "distinct (map guideId [sample_search_guide, sample_security_guide\<lparr>isActive := False\<rparr>]) \<and>
   get_state (createGuides [] [sample_search_guide, sample_security_guide\<lparr>isActive := False\<rparr>])
     (Some True) = \<lparr>status_code = 200, state = [sample_search_guide]\<rparr>"
  using get_state_active_only
    [of "[]" "[sample_search_guide, sample_security_guide\<lparr>isActive := False\<rparr>]"]
  by (simp add: sample_search_guide_def sample_security_guide_def)

text \<open>
  C2. When the store holds no guide (empty, just cleaned, or after creating no guide), the
  request returns status 200 and the body with the empty state array, with or without
  the query parameter.
\<close>

theorem get_state_empty_store:
  "get_state [] active = \<lparr>status_code = 200, state = []\<rparr> \<and>
   get_state (savedObjects_clean so) active = \<lparr>status_code = 200, state = []\<rparr> \<and>
   get_state (createGuides [] []) active = \<lparr>status_code = 200, state = []\<rparr>"
  by (simp add: get_state_def savedObjects_clean_def)

text \<open>
  C3. For every content of the saved-object store, the request without query parameter
  returns status 200 and a state array that holds the state of every stored guide; after
  \<open>createGuides\<close> on an empty store with guides of distinct ids, it is the list of the
  guides created.
\<close>

theorem get_state_all_guides:
  "status_code (get_state so None) = 200 \<and>
   state (get_state so None) = map snd so \<and>
   set (state (get_state so None)) = snd ` set so \<and>
   (distinct (map guideId guides) \<longrightarrow>
      get_state (createGuides [] guides) None = \<lparr>status_code = 200, state = guides\<rparr>)"
  by (auto simp: get_state_def createGuides_from_empty)

theorem get_state_all_guides_witness:
  "distinct (map guideId [sample_search_guide, sample_security_guide]) \<and>
   get_state (createGuides [] [sample_search_guide, sample_security_guide]) None =
     \<lparr>status_code = 200, state = [sample_search_guide, sample_security_guide]\<rparr>"
  using get_state_all_guides [of "[]" "[sample_search_guide, sample_security_guide]"]
  by (simp add: sample_search_guide_def sample_security_guide_def)

end
